theory Spec2Isabelle
  imports Complex_Main "HOL-Library.Sublist"
begin

section \<open>DKG result preparation and publisher eligibility (package gjkr)\<close>

text \<open>
  Go's \<open>int\<close> is 64 bits wide on the platforms the client runs on. A value of that
  type is an \<open>int\<close> here, and a sum, difference or product that can leave the range
  is wrapped in two's complement by \<open>int64\<close>; the length of a slice and the half of
  an \<open>int\<close> cannot leave it. Integer division in Go truncates towards zero and panics
  on a zero divisor; the one quotient out of range, of the least \<open>int\<close> by \<open>-1\<close>,
  wraps.
\<close>

datatype failure = Error string | Panic string

definition int64 :: "int \<Rightarrow> int" where
  "int64 x = (x + 2 ^ 63) mod 2 ^ 64 - 2 ^ 63"

definition go_quot :: "int \<Rightarrow> int \<Rightarrow> int" where
  "go_quot a b = sgn a * sgn b * (\<bar>a\<bar> div \<bar>b\<bar>)"

definition go_div :: "int \<Rightarrow> int \<Rightarrow> failure + int" where
  "go_div a b =
     (if b = 0 then Inl (Panic ''runtime error: integer divide by zero'')
      else Inr (int64 (go_quot a b)))"

text \<open>
  \<open>float64(x)\<close> of an \<open>int\<close>: a \<open>float64\<close> has a significand of 53 bits, so the
  magnitude is rounded to the nearest multiple of the least power of two that leaves a
  quotient below \<open>2 ^ 53\<close>, a tie going to the even quotient. The float is the real
  number of that value. \<open>ulp_from u n\<close> searches that power of two from \<open>u\<close> upwards.
\<close>

function ulp_from :: "nat \<Rightarrow> nat \<Rightarrow> nat" where
  "ulp_from u n = (if u = 0 \<or> n div u < 2 ^ 53 then u else ulp_from (2 * u) n)"
  by pat_completeness auto
termination
  by (relation "measure (\<lambda>(u, n). n div u)") (auto simp: div_mult2_eq ac_simps)

declare ulp_from.simps [simp del]

definition float64 :: "int \<Rightarrow> real" where
  "float64 x =
     (let n = nat \<bar>x\<bar>;
          u = ulp_from 1 n;
          m = n div u;
          r = n mod u;
          m' = (if 2 * r < u then m
                else if u < 2 * r then m + 1
                else if even m then m else m + 1)
      in real_of_int (sgn x * int (m' * u)))"

text \<open>
  \<open>math.Ceil\<close> yields the least integral float not below its argument. \<open>int(f)\<close> of
  a float drops the fraction; where the value is outside the range of \<open>int\<close> the
  language leaves the result to the implementation, and the amd64 conversion yields the
  least \<open>int\<close>.
\<close>

definition math_Ceil :: "real \<Rightarrow> real" where
  "math_Ceil f = real_of_int \<lceil>f\<rceil>"

definition int_of_float64 :: "real \<Rightarrow> int" where
  "int_of_float64 f =
     (if - (2 ^ 63) \<le> f \<and> f < 2 ^ 63 then (if f < 0 then \<lceil>f\<rceil> else \<lfloor>f\<rfloor>)
      else - (2 ^ 63))"

type_synonym MemberID = int

text \<open>
  \<open>result.Result\<close>: a field the composite literal leaves out keeps Go's zero value,
  \<open>nil\<close>; a nil \<open>*big.Int\<close> is \<open>None\<close> and a nil slice is \<open>[]\<close>.
\<close>

record Result =
  Success :: bool
  GroupPublicKey :: "int option"
  Disqualified :: "MemberID list"
  Inactive :: "MemberID list"

text \<open>
  The group of the gjkr package is declared outside the files at hand; the record keeps
  the field \<open>dishonestThreshold\<close>, which the code reads directly, and one field for the
  slice each of its accessors \<open>MemberIDs()\<close>, \<open>DisqualifiedMembers()\<close> and
  \<open>InactiveMembers()\<close> returns.
\<close>

record gjkr_Group =
  dishonestThreshold :: int
  MemberIDs :: "MemberID list"
  DisqualifiedMembers :: "MemberID list"
  InactiveMembers :: "MemberID list"

record chain =
  expectedProtocolDuration :: int
  initialBlockHeight :: int
  blockStep :: int
  CurrentBlock :: "string + int"

record PublishingMember =
  group :: gjkr_Group
  protocolConfig_chain :: chain
  result :: "Result option"

text \<open>
  \<open>PrepareResult\<close> stores the result in the member. The threshold is divided by the
  constant 2, which cannot panic.
\<close>

definition PrepareResult :: "PublishingMember \<Rightarrow> PublishingMember" where
  "PrepareResult pm =
     (let disqualifiedMembers = DisqualifiedMembers (group pm);
          inactiveMembers = InactiveMembers (group pm)
      in if int (length disqualifiedMembers) + int (length inactiveMembers)
              > go_quot (dishonestThreshold (group pm)) 2
         then pm\<lparr>result := Some \<lparr>Success = False, GroupPublicKey = None,
                                  Disqualified = disqualifiedMembers, Inactive = []\<rparr>\<rparr>
         else pm\<lparr>result := Some \<lparr>Success = True, GroupPublicKey = Some 123,
                                  Disqualified = disqualifiedMembers,
                                  Inactive = inactiveMembers\<rparr>\<rparr>)"

text \<open>
  The loop of \<open>determinePublishersIDs\<close> over \<open>MemberIDs()\<close>: \<open>index\<close> is the position
  of the element in the slice, and the loop breaks at the first position above
  \<open>highestMemberIndex\<close>.
\<close>

fun selectPublishers :: "int \<Rightarrow> int \<Rightarrow> MemberID list \<Rightarrow> MemberID list" where
  "selectPublishers highestMemberIndex index [] = []"
| "selectPublishers highestMemberIndex index (groupMemberID # rest) =
     (if index \<le> highestMemberIndex
      then groupMemberID # selectPublishers highestMemberIndex (index + 1) rest
      else [])"

text \<open>
  \<open>int(math.Ceil(float64(surpassBlocks / blockStep)))\<close>: the quotient is an integer
  division of two \<open>int\<close>s, taken before the conversion to \<open>float64\<close>. The two
  subtractions are subtractions of \<open>int\<close>s.
\<close>

definition determinePublishersIDs :: "PublishingMember \<Rightarrow> failure + MemberID list" where
  "determinePublishersIDs pm =
     (let c = protocolConfig_chain pm in
      case CurrentBlock c of
        Inl err \<Rightarrow> Inl (Error (''getting current block height failed ['' @ err @ '']''))
      | Inr currentBlock \<Rightarrow>
          let elapsedBlocks = int64 (currentBlock - initialBlockHeight c) in
          if elapsedBlocks \<le> expectedProtocolDuration c
          then Inr (selectPublishers 0 0 (MemberIDs (group pm)))
          else
            let surpassBlocks = int64 (elapsedBlocks - expectedProtocolDuration c) in
            (case go_div surpassBlocks (blockStep c) of
               Inl p \<Rightarrow> Inl p
             | Inr q \<Rightarrow>
                 Inr (selectPublishers (int_of_float64 (math_Ceil (float64 q))) 0
                        (MemberIDs (group pm)))))"

text \<open>
  The eligibility rule in the words of the specification, for comparison: the highest
  eligible position is the ceiling of the exact quotient.
\<close>

definition spec_highestIndex :: "int \<Rightarrow> int \<Rightarrow> int \<Rightarrow> int" where
  "spec_highestIndex elapsed duration step =
     (if elapsed \<le> duration then 0
      else \<lceil>real_of_int (elapsed - duration) / real_of_int step\<rceil>)"

definition spec_eligible :: "int \<Rightarrow> int \<Rightarrow> int \<Rightarrow> MemberID list \<Rightarrow> MemberID list" where
  "spec_eligible elapsed duration step members =
     take (nat (spec_highestIndex elapsed duration step + 1)) members"

section \<open>Submitting the DKG result (package result)\<close>

type_synonym MemberIndex = nat

record SubmittingMember =
  index :: MemberIndex

record Config =
  ResultPublicationBlockStep :: int

text \<open>
  The relay chain handle, as far as \<open>SubmitDKGResult\<close> uses it: what each call
  returns. \<open>OnDKGResultSubmitted\<close> is \<open>None\<close> when the subscription is set up and the
  error otherwise; \<open>SubmitDKGResult_OnComplete\<close> is the error the completion callback of
  the submitted transaction receives (\<open>None\<close> for nil).
\<close>

record ('r, 's) relayChain =
  GetConfig :: "string + Config"
  OnDKGResultSubmitted :: "string option"
  IsDKGResultSubmitted :: "int \<Rightarrow> string + bool"
  SubmitDKGResult_OnComplete :: "int \<Rightarrow> MemberIndex \<Rightarrow> 'r \<Rightarrow> 's \<Rightarrow> string option"

text \<open>
  \<open>chain.BlockCounter\<close> is an interface, and \<open>SubmitDKGResult\<close> receives its
  implementation as an argument. A block counter is given here by what its
  \<open>BlockWaiter\<close> returns for a number of blocks: an error, or the channel of a one-shot
  notification, which is identified with the block height at which it delivers.
\<close>

record waiter =
  fireHeight :: int

record BlockCounter =
  BlockWaiter :: "int \<Rightarrow> string + waiter"


text \<open>
  \<open>MemberIndex\<close> is an unsigned integer type; \<open>int(sm.index)\<close> converts it, and the
  decrement and the product are computed in \<open>int\<close>. Nothing but that product is passed
  to the block counter.
\<close>

definition waitForSubmissionEligibility ::
  "SubmittingMember \<Rightarrow> BlockCounter \<Rightarrow> int \<Rightarrow> string + waiter" where
  "waitForSubmissionEligibility sm blockCounter blockStep' =
     (case BlockWaiter blockCounter (int64 (int64 (int64 (int (index sm)) - 1) * blockStep')) of
        Inl err \<Rightarrow> Inl (''block waiter failure ['' @ err @ '']'')
      | Inr eligibleToSubmitWaiter \<Rightarrow> Inr eligibleToSubmitWaiter)"

text \<open>
  The \<open>select\<close> of \<open>SubmitDKGResult\<close> receives from two channels. The schedule is the
  sequence of receptions in the order the \<open>select\<close> takes them: the waiter's channel
  delivering, or the subscription delivering an event with its request ID. What the call
  does to the outside is logged as a list of actions: the waiter it has registered with
  the block counter, the release of the subscription and of its channel, the transaction
  it submits. The call returns an error or nil (\<open>Returns\<close>), or is still blocked in
  the \<open>select\<close> when the schedule is used up.
\<close>

datatype reception = eligibleToSubmit | publishedResultEvent (RequestID: int)

datatype ('r, 's) action =
    Register waiter
  | Unsubscribe
  | Close_onSubmittedResultChan
  | Submit int MemberIndex 'r 's

datatype outcome = Returns "failure option" | Blocks

fun selectLoop ::
  "SubmittingMember \<Rightarrow> int \<Rightarrow> 'r \<Rightarrow> 's \<Rightarrow> ('r, 's) relayChain \<Rightarrow> reception list
     \<Rightarrow> outcome \<times> ('r, 's) action list" where
  "selectLoop sm requestID res signatures chainRelay [] = (Blocks, [])"
| "selectLoop sm requestID res signatures chainRelay (eligibleToSubmit # schedule) =
     (Returns (map_option Error
                (SubmitDKGResult_OnComplete chainRelay requestID (index sm) res signatures)),
      [Unsubscribe, Close_onSubmittedResultChan, Submit requestID (index sm) res signatures])"
| "selectLoop sm requestID res signatures chainRelay (publishedResultEvent rid # schedule) =
     (if rid = requestID then (Returns None, [Unsubscribe, Close_onSubmittedResultChan])
      else selectLoop sm requestID res signatures chainRelay schedule)"

definition SubmitDKGResult ::
  "SubmittingMember \<Rightarrow> int \<Rightarrow> 'r \<Rightarrow> 's \<Rightarrow> ('r, 's) relayChain \<Rightarrow> BlockCounter
     \<Rightarrow> reception list \<Rightarrow> outcome \<times> ('r, 's) action list" where
  "SubmitDKGResult sm requestID res signatures chainRelay blockCounter schedule =
     (case GetConfig chainRelay of
        Inl err \<Rightarrow>
          (Returns (Some (Error (''could not fetch chain's config ['' @ err @ '']''))), [])
      | Inr config \<Rightarrow>
         (case OnDKGResultSubmitted chainRelay of
            Some err \<Rightarrow>
              (Returns (Some (Error (''could not watch for DKG result publications [''
                                        @ err @ '']''))),
               [Close_onSubmittedResultChan])
          | None \<Rightarrow>
             (case IsDKGResultSubmitted chainRelay requestID of
                Inl err \<Rightarrow>
                  (Returns (Some (Error (''could not check if the result is already published [''
                                            @ err @ '']''))),
                   [Unsubscribe, Close_onSubmittedResultChan])
              | Inr alreadyPublished \<Rightarrow>
                  if alreadyPublished
                  then (Returns None, [Unsubscribe, Close_onSubmittedResultChan])
                  else
                   (case waitForSubmissionEligibility sm blockCounter
                           (ResultPublicationBlockStep config) of
                      Inl err \<Rightarrow>
                        (Returns (Some (Error (''wait for eligibility failure [''
                                                  @ err @ '']''))),
                         [Unsubscribe, Close_onSubmittedResultChan])
                    | Inr eligibleToSubmitWaiter \<Rightarrow>
                        (case selectLoop sm requestID res signatures chainRelay schedule of
                           (out, actions) \<Rightarrow>
                             (out, Register eligibleToSubmitWaiter # actions))))))"

section \<open>The group registry (library Groups)\<close>

unbundle bit_operations_syntax

text \<open>
  A \<open>uint256\<close> is a natural number below \<open>2 ^ 256\<close>. The operations of SafeMath
  revert where the exact result leaves that range; reading an array past its end and
  dividing by zero revert as well. A revert is the \<open>Inl\<close> of a result; it undoes the
  whole call, so no state comes with it.
\<close>

datatype revert = Require string | IndexOutOfBounds | DivisionByZero

definition MAX_UINT256 :: nat where
  "MAX_UINT256 = 2 ^ 256 - 1"

definition SafeMath_add :: "nat \<Rightarrow> nat \<Rightarrow> revert + nat" where
  "SafeMath_add a b =
     (if a + b \<le> MAX_UINT256 then Inr (a + b)
      else Inl (Require ''SafeMath: addition overflow''))"

definition SafeMath_sub :: "nat \<Rightarrow> nat \<Rightarrow> revert + nat" where
  "SafeMath_sub a b =
     (if b \<le> a then Inr (a - b) else Inl (Require ''SafeMath: subtraction overflow''))"

definition SafeMath_div :: "nat \<Rightarrow> nat \<Rightarrow> revert + nat" where
  "SafeMath_div a b =
     (if 0 < b then Inr (a div b) else Inl (Require ''SafeMath: division by zero''))"

type_synonym address = nat
type_synonym bytes = string

definition GROUP_INDEX_FLAG :: nat where
  "GROUP_INDEX_FLAG = 2 ^ 255"

record Group =
  groupPubKey :: bytes
  registrationBlockHeight :: nat
  terminated :: bool

text \<open>
  A Solidity mapping has a value at every key (zero, false or the empty array until
  written), so it is a total function. The staking contract is a contract of its own:
  the calls to its \<open>seize\<close> are returned as values.
\<close>

record Storage =
  groupActiveTime :: nat
  relayEntryTimeout :: nat
  groupIndices :: "bytes \<Rightarrow> nat"
  groups :: "Group list"
  activeTerminatedGroups :: "nat list"
  groupMembers :: "bytes \<Rightarrow> address list"
  groupMemberRewards :: "bytes \<Rightarrow> nat"
  withdrawn :: "bytes \<Rightarrow> address \<Rightarrow> bool"
  expiredGroupOffset :: nat

record seize =
  amount :: nat
  rewardMultiplier :: nat
  tattletale :: address
  misbehavedOperators :: "address list"

text \<open>\<open>uint64(block.number)\<close> keeps the low 64 bits.\<close>

definition addGroup :: "Storage \<Rightarrow> nat \<Rightarrow> bytes \<Rightarrow> Storage" where
  "addGroup self block_number pubKey =
     self\<lparr>groupIndices := (groupIndices self)(pubKey := length (groups self) XOR GROUP_INDEX_FLAG),
          groups := groups self @
            [\<lparr>groupPubKey = pubKey, registrationBlockHeight = block_number mod 2 ^ 64,
              terminated = False\<rparr>]\<rparr>"

text \<open>
  The loop of \<open>setGroupMembers\<close> walks \<open>misbehaved\<close> backwards; \<open>i\<close> is the number of
  bytes still to visit. The byte is a \<open>uint8\<close>, whose decrement wraps.
\<close>

fun removeMisbehaved :: "address list \<Rightarrow> bytes \<Rightarrow> nat \<Rightarrow> revert + address list" where
  "removeMisbehaved members misbehaved 0 = Inr members"
| "removeMisbehaved members misbehaved (Suc j) =
     (if Suc j \<le> length misbehaved then
        (let memberArrayPosition = (of_char (misbehaved ! j) + 255) mod 256 in
         if members \<noteq> [] \<and> memberArrayPosition < length members
         then removeMisbehaved (butlast (members[memberArrayPosition := last members]))
                misbehaved j
         else Inl IndexOutOfBounds)
      else Inl IndexOutOfBounds)"

definition setGroupMembers ::
  "Storage \<Rightarrow> bytes \<Rightarrow> address list \<Rightarrow> bytes \<Rightarrow> revert + Storage" where
  "setGroupMembers self pubKey members misbehaved =
     (case removeMisbehaved members misbehaved (length misbehaved) of
        Inl e \<Rightarrow> Inl e
      | Inr members' \<Rightarrow> Inr (self\<lparr>groupMembers := (groupMembers self)(pubKey := members')\<rparr>))"

definition addGroupMemberReward :: "Storage \<Rightarrow> bytes \<Rightarrow> nat \<Rightarrow> revert + Storage" where
  "addGroupMemberReward self pubKey amount' =
     (case SafeMath_add (groupMemberRewards self pubKey) amount' of
        Inl e \<Rightarrow> Inl e
      | Inr accumulated \<Rightarrow>
          Inr (self\<lparr>groupMemberRewards := (groupMemberRewards self)(pubKey := accumulated)\<rparr>))"

definition getGroupMemberRewards :: "Storage \<Rightarrow> bytes \<Rightarrow> nat" where
  "getGroupMemberRewards self pubKey = groupMemberRewards self pubKey"

definition getGroupPublicKey :: "Storage \<Rightarrow> nat \<Rightarrow> revert + bytes" where
  "getGroupPublicKey self groupIndex =
     (if groupIndex < length (groups self) then Inr (groupPubKey (groups self ! groupIndex))
      else Inl IndexOutOfBounds)"

definition terminateGroup :: "Storage \<Rightarrow> nat \<Rightarrow> revert + Storage" where
  "terminateGroup self groupIndex =
     (if groupIndex < length (groups self)
      then Inr (self\<lparr>groups := (groups self)
                         [groupIndex := (groups self ! groupIndex)\<lparr>terminated := True\<rparr>],
                     activeTerminatedGroups := activeTerminatedGroups self @ [groupIndex]\<rparr>)
      else Inl IndexOutOfBounds)"

definition isGroupTerminated :: "Storage \<Rightarrow> nat \<Rightarrow> revert + bool" where
  "isGroupTerminated self groupIndex =
     (if groupIndex < length (groups self) then Inr (terminated (groups self ! groupIndex))
      else Inl IndexOutOfBounds)"

definition isGroupRegistered :: "Storage \<Rightarrow> bytes \<Rightarrow> bool" where
  "isGroupRegistered self pubKey = (groupIndices self pubKey > 0)"

definition groupActiveTimeOf :: "Storage \<Rightarrow> Group \<Rightarrow> revert + nat" where
  "groupActiveTimeOf self g = SafeMath_add (registrationBlockHeight g) (groupActiveTime self)"

definition groupStaleTime :: "Storage \<Rightarrow> Group \<Rightarrow> revert + nat" where
  "groupStaleTime self g =
     (case groupActiveTimeOf self g of
        Inl e \<Rightarrow> Inl e
      | Inr activeTime \<Rightarrow> SafeMath_add activeTime (relayEntryTimeout self))"

text \<open>The two overloads of \<open>isStaleGroup\<close>: by public key and by index.\<close>

definition isStaleGroup_pubKey :: "Storage \<Rightarrow> nat \<Rightarrow> bytes \<Rightarrow> revert + bool" where
  "isStaleGroup_pubKey self block_number pubKey =
     (let flaggedIndex = groupIndices self pubKey in
      if flaggedIndex = 0 then Inl (Require ''Group does not exist'')
      else
        let index' = flaggedIndex XOR GROUP_INDEX_FLAG;
            isExpired = expiredGroupOffset self > index'
        in if index' < length (groups self)
           then (case groupStaleTime self (groups self ! index') of
                   Inl e \<Rightarrow> Inl e
                 | Inr staleTime \<Rightarrow> Inr (isExpired \<and> staleTime < block_number))
           else Inl IndexOutOfBounds)"

definition isStaleGroup :: "Storage \<Rightarrow> nat \<Rightarrow> nat \<Rightarrow> revert + bool" where
  "isStaleGroup self block_number groupIndex =
     (if groupIndex < length (groups self)
      then (case groupStaleTime self (groups self ! groupIndex) of
              Inl e \<Rightarrow> Inl e
            | Inr staleTime \<Rightarrow> Inr (staleTime < block_number))
      else Inl IndexOutOfBounds)"

definition numberOfGroups :: "Storage \<Rightarrow> revert + nat" where
  "numberOfGroups self =
     (case SafeMath_sub (length (groups self)) (expiredGroupOffset self) of
        Inl e \<Rightarrow> Inl e
      | Inr notExpired \<Rightarrow> SafeMath_sub notExpired (length (activeTerminatedGroups self)))"

text \<open>
  The \<open>while\<close> loop of \<open>expireOldGroups\<close>. It reads \<open>groups[expiredGroupOffset]\<close> in its
  condition, which reverts once the offset has reached the length of the array. The
  increment cannot wrap: the offset is below the length of an array.
\<close>

function advanceExpiredGroupOffset :: "Storage \<Rightarrow> nat \<Rightarrow> revert + Storage" where
  "advanceExpiredGroupOffset self block_number =
     (if expiredGroupOffset self < length (groups self) then
        (case groupActiveTimeOf self (groups self ! expiredGroupOffset self) of
           Inl e \<Rightarrow> Inl e
         | Inr activeTime \<Rightarrow>
             if activeTime < block_number
             then advanceExpiredGroupOffset
                    (self\<lparr>expiredGroupOffset := expiredGroupOffset self + 1\<rparr>) block_number
             else Inr self)
      else Inl IndexOutOfBounds)"
  by pat_completeness auto
termination
  by (relation "measure (\<lambda>(self, block_number). length (groups self) - expiredGroupOffset self)")
     auto

text \<open>
  The \<open>for\<close> loop of \<open>expireOldGroups\<close> over \<open>activeTerminatedGroups\<close>, from position
  \<open>i\<close>: an entry below the offset is overwritten by the last entry and the array loses
  its last element; \<open>i\<close> is incremented in either case.
\<close>

function removeExpiredTerminated :: "nat \<Rightarrow> nat list \<Rightarrow> nat \<Rightarrow> nat list" where
  "removeExpiredTerminated offset terminatedGroups i =
     (if i < length terminatedGroups then
        (if offset > terminatedGroups ! i
         then removeExpiredTerminated offset
                (butlast (terminatedGroups[i := last terminatedGroups])) (i + 1)
         else removeExpiredTerminated offset terminatedGroups (i + 1))
      else terminatedGroups)"
  by pat_completeness auto
termination
  by (relation "measure (\<lambda>(offset, terminatedGroups, i). length terminatedGroups - i)") auto

definition expireOldGroups :: "Storage \<Rightarrow> nat \<Rightarrow> revert + Storage" where
  "expireOldGroups self block_number =
     (case advanceExpiredGroupOffset self block_number of
        Inl e \<Rightarrow> Inl e
      | Inr self' \<Rightarrow>
          Inr (self'\<lparr>activeTerminatedGroups :=
                 removeExpiredTerminated (expiredGroupOffset self')
                   (activeTerminatedGroups self') 0\<rparr>))"

definition shiftByExpiredGroups :: "Storage \<Rightarrow> nat \<Rightarrow> revert + nat" where
  "shiftByExpiredGroups self selectedIndex = SafeMath_add (expiredGroupOffset self) selectedIndex"

text \<open>
  The loop of \<open>shiftByTerminatedGroups\<close> visits the entries in the order of the array;
  \<open>shiftedIndex++\<close> is an unchecked increment.
\<close>

fun shiftLoop :: "nat list \<Rightarrow> nat \<Rightarrow> nat" where
  "shiftLoop [] shiftedIndex = shiftedIndex"
| "shiftLoop (t # rest) shiftedIndex =
     shiftLoop rest (if t \<le> shiftedIndex then (shiftedIndex + 1) mod 2 ^ 256 else shiftedIndex)"

definition shiftByTerminatedGroups :: "Storage \<Rightarrow> nat \<Rightarrow> nat" where
  "shiftByTerminatedGroups self selectedIndex =
     shiftLoop (activeTerminatedGroups self) selectedIndex"

definition selectGroup :: "Storage \<Rightarrow> nat \<Rightarrow> nat \<Rightarrow> revert + Storage \<times> nat" where
  "selectGroup self block_number seed =
     (case numberOfGroups self of
        Inl e \<Rightarrow> Inl e
      | Inr n \<Rightarrow>
          if n > 0 then
            (case expireOldGroups self block_number of
               Inl e \<Rightarrow> Inl e
             | Inr self' \<Rightarrow>
                (case numberOfGroups self' of
                   Inl e \<Rightarrow> Inl e
                 | Inr n' \<Rightarrow>
                     if n' = 0 then Inl DivisionByZero
                     else
                       (case shiftByExpiredGroups self' (seed mod n') of
                          Inl e \<Rightarrow> Inl e
                        | Inr shifted \<Rightarrow> Inr (self', shiftByTerminatedGroups self' shifted))))
          else Inl (Require ''No active groups''))"

fun sumRewards :: "address \<Rightarrow> nat \<Rightarrow> address list \<Rightarrow> nat \<Rightarrow> revert + nat" where
  "sumRewards operator reward [] rewards = Inr rewards"
| "sumRewards operator reward (member # rest) rewards =
     (if operator = member
      then (case SafeMath_add rewards reward of
              Inl e \<Rightarrow> Inl e
            | Inr rewards' \<Rightarrow> sumRewards operator reward rest rewards')
      else sumRewards operator reward rest rewards)"

definition withdrawFromGroup ::
  "Storage \<Rightarrow> nat \<Rightarrow> address \<Rightarrow> nat \<Rightarrow> revert + Storage \<times> nat" where
  "withdrawFromGroup self block_number operator groupIndex =
     (let isExpired = expiredGroupOffset self > groupIndex in
      case isStaleGroup self block_number groupIndex of
        Inl e \<Rightarrow> Inl e
      | Inr isStale \<Rightarrow>
          if isExpired \<and> isStale then
            (case getGroupPublicKey self groupIndex of
               Inl e \<Rightarrow> Inl e
             | Inr groupPublicKey \<Rightarrow>
                 if \<not> withdrawn self groupPublicKey operator then
                   (let self' = self\<lparr>withdrawn := (withdrawn self)
                                  (groupPublicKey :=
                                     (withdrawn self groupPublicKey)(operator := True))\<rparr>
                    in case sumRewards operator (groupMemberRewards self' groupPublicKey)
                              (groupMembers self' groupPublicKey) 0 of
                         Inl e \<Rightarrow> Inl e
                       | Inr rewards \<Rightarrow> Inr (self', rewards))
                 else Inl (Require ''Rewards already withdrawn''))
          else Inl (Require ''Group must be expired and stale''))"

definition getGroupMembers :: "Storage \<Rightarrow> nat \<Rightarrow> revert + address list" where
  "getGroupMembers self groupIndex =
     (if groupIndex < length (groups self)
      then Inr (groupMembers self (groupPubKey (groups self ! groupIndex)))
      else Inl IndexOutOfBounds)"

text \<open>
  \<open>BLS.verifyBytes\<close> belongs to the cryptographic library; its verdict on the group's
  key, the sender and the signature is the parameter \<open>verifyBytes\<close>.
\<close>

definition reportUnauthorizedSigning ::
  "(bytes \<Rightarrow> address \<Rightarrow> bytes \<Rightarrow> bool) \<Rightarrow> Storage \<Rightarrow> nat \<Rightarrow> address \<Rightarrow> nat \<Rightarrow> bytes \<Rightarrow> nat
     \<Rightarrow> revert + Storage \<times> seize" where
  "reportUnauthorizedSigning verifyBytes self block_number msg_sender groupIndex
       signedMsgSender minimumStake =
     (case isStaleGroup self block_number groupIndex of
        Inl e \<Rightarrow> Inl e
      | Inr stale \<Rightarrow>
          if \<not> stale then
            (case getGroupPublicKey self groupIndex of
               Inl e \<Rightarrow> Inl e
             | Inr pubKey \<Rightarrow>
                 let isSignatureValid = verifyBytes pubKey msg_sender signedMsgSender in
                 (case isGroupTerminated self groupIndex of
                    Inl e \<Rightarrow> Inl e
                  | Inr isTerminated \<Rightarrow>
                      if \<not> isTerminated \<and> isSignatureValid then
                        (case terminateGroup self groupIndex of
                           Inl e \<Rightarrow> Inl e
                         | Inr self' \<Rightarrow>
                             Inr (self', \<lparr>amount = minimumStake, rewardMultiplier = 100,
                                          tattletale = msg_sender,
                                          misbehavedOperators = groupMembers self' pubKey\<rparr>))
                      else Inl (Require ''Group terminated or sig invalid'')))
          else Inl (Require ''Group can not be stale''))"

definition reportRelayEntryTimeout ::
  "Storage \<Rightarrow> address \<Rightarrow> nat \<Rightarrow> nat \<Rightarrow> nat \<Rightarrow> revert + Storage \<times> seize" where
  "reportRelayEntryTimeout self msg_sender groupIndex groupSize minimumStake =
     (case terminateGroup self groupIndex of
        Inl e \<Rightarrow> Inl e
      | Inr self' \<Rightarrow>
         (case SafeMath_div (20 * 100) groupSize of
            Inl e \<Rightarrow> Inl e
          | Inr adjustment \<Rightarrow>
              let rewardAdjustment = (if adjustment > 100 then 100 else adjustment) in
              (case getGroupMembers self' groupIndex of
                 Inl e \<Rightarrow> Inl e
               | Inr members \<Rightarrow>
                   Inr (self', \<lparr>amount = minimumStake, rewardMultiplier = rewardAdjustment,
                                tattletale = msg_sender, misbehavedOperators = members\<rparr>))))"

definition hasWithdrawnRewards :: "Storage \<Rightarrow> address \<Rightarrow> nat \<Rightarrow> revert + bool" where
  "hasWithdrawnRewards self operator groupIndex =
     (case getGroupPublicKey self groupIndex of
        Inl e \<Rightarrow> Inl e
      | Inr pubKey \<Rightarrow> Inr (withdrawn self pubKey operator))"

text \<open>
  The library is driven by the transactions of the operator contract. A call is one
  invocation of a function of the library at a block height; a call that reverts leaves
  the storage as it was.
\<close>

datatype call =
    AddGroup bytes
  | SetGroupMembers bytes "address list" bytes
  | AddGroupMemberReward bytes nat
  | TerminateGroup nat
  | ExpireOldGroups
  | SelectGroup nat
  | WithdrawFromGroup address nat
  | ReportUnauthorizedSigning address nat bytes nat
  | ReportRelayEntryTimeout address nat nat nat

definition commit :: "Storage \<Rightarrow> revert + Storage \<Rightarrow> Storage" where
  "commit self r = (case r of Inl e \<Rightarrow> self | Inr self' \<Rightarrow> self')"

fun exec :: "(bytes \<Rightarrow> address \<Rightarrow> bytes \<Rightarrow> bool) \<Rightarrow> Storage \<Rightarrow> nat \<times> call \<Rightarrow> Storage" where
  "exec v self (bn, AddGroup k) = addGroup self bn k"
| "exec v self (bn, SetGroupMembers k members misbehaved) =
     commit self (setGroupMembers self k members misbehaved)"
| "exec v self (bn, AddGroupMemberReward k a) = commit self (addGroupMemberReward self k a)"
| "exec v self (bn, TerminateGroup i) = commit self (terminateGroup self i)"
| "exec v self (bn, ExpireOldGroups) = commit self (expireOldGroups self bn)"
| "exec v self (bn, SelectGroup seed) = commit self (map_sum id fst (selectGroup self bn seed))"
| "exec v self (bn, WithdrawFromGroup operator i) =
     commit self (map_sum id fst (withdrawFromGroup self bn operator i))"
| "exec v self (bn, ReportUnauthorizedSigning sender i sig stake) =
     commit self (map_sum id fst (reportUnauthorizedSigning v self bn sender i sig stake))"
| "exec v self (bn, ReportRelayEntryTimeout sender i groupSize stake) =
     commit self (map_sum id fst (reportRelayEntryTimeout self sender i groupSize stake))"

definition run ::
  "(bytes \<Rightarrow> address \<Rightarrow> bytes \<Rightarrow> bool) \<Rightarrow> Storage \<Rightarrow> (nat \<times> call) list \<Rightarrow> Storage" where
  "run v self calls = foldl (exec v) self calls"

definition groupKeys :: "Storage \<Rightarrow> bytes list" where
  "groupKeys self = map groupPubKey (groups self)"

subsection \<open>Sample inputs\<close>

definition sample_member :: "int \<Rightarrow> MemberID list \<Rightarrow> MemberID list \<Rightarrow> int \<Rightarrow> PublishingMember" where
  "sample_member threshold disqualified inactive currentBlock =
     \<lparr>group = \<lparr>dishonestThreshold = threshold, MemberIDs = [1, 2, 3],
                DisqualifiedMembers = disqualified, InactiveMembers = inactive\<rparr>,
      protocolConfig_chain = \<lparr>expectedProtocolDuration = 10, initialBlockHeight = 0,
                               blockStep = 3, CurrentBlock = Inr currentBlock\<rparr>,
      result = None\<rparr>"

definition sample_relay :: "bool \<Rightarrow> (unit, unit) relayChain" where
  "sample_relay published =
     \<lparr>GetConfig = Inr \<lparr>ResultPublicationBlockStep = 6\<rparr>,
      OnDKGResultSubmitted = None,
      IsDKGResultSubmitted = (\<lambda>requestID. Inr published),
      SubmitDKGResult_OnComplete = (\<lambda>requestID memberIndex res signatures. None)\<rparr>"

text \<open>
  A block counter that counts the blocks it is asked to wait for from the height \<open>base\<close>.
\<close>

definition counting_from :: "int \<Rightarrow> BlockCounter" where
  "counting_from base = \<lparr>BlockWaiter = (\<lambda>numBlocks. Inr \<lparr>fireHeight = base + numBlocks\<rparr>)\<rparr>"

definition sample_counter :: BlockCounter where
  "sample_counter = counting_from 500"

definition sample_registry :: "Group list \<Rightarrow> nat list \<Rightarrow> nat \<Rightarrow> Storage" where
  "sample_registry gs terminatedGroups offset =
     \<lparr>groupActiveTime = 100, relayEntryTimeout = 20, groupIndices = (\<lambda>pubKey. 0),
      groups = gs, activeTerminatedGroups = terminatedGroups,
      groupMembers = (\<lambda>pubKey. if pubKey = ''a'' then [7, 8, 7] else []),
      groupMemberRewards = (\<lambda>pubKey. if pubKey = ''a'' then 5 else 0),
      withdrawn = (\<lambda>pubKey operator. False), expiredGroupOffset = offset\<rparr>"

definition sample_group :: "bytes \<Rightarrow> nat \<Rightarrow> bool \<Rightarrow> Group" where
  "sample_group pubKey height isTerminated =
     \<lparr>groupPubKey = pubKey, registrationBlockHeight = height, terminated = isTerminated\<rparr>"

definition five_groups :: Storage where
  "five_groups =
     sample_registry
       [sample_group ''a'' 1000 False, sample_group ''b'' 1010 False,
        sample_group ''c'' 1020 True, sample_group ''d'' 1030 False,
        sample_group ''e'' 1040 False] [2] 1"

text \<open>
  A registry built by calls of the library from the empty one: two groups are registered
  at height 1000 and terminated, a third is registered at height 1090.
\<close>

definition genesis :: Storage where
  "genesis = sample_registry [] [] 0"

definition two_terminated :: Storage where
  "two_terminated =
     run (\<lambda>pubKey sender signedMsgSender. False) genesis
       [(1000, AddGroup ''a''), (1000, AddGroup ''b''), (1010, TerminateGroup 0),
        (1020, TerminateGroup 1), (1090, AddGroup ''c'')]"

definition offset_and_terminated :: "Storage \<Rightarrow> nat \<times> nat list" where
  "offset_and_terminated self = (expiredGroupOffset self, activeTerminatedGroups self)"

definition one_group :: Storage where
  "one_group = sample_registry [sample_group ''a'' 1000 False] [] 0"

definition old_and_terminated :: Storage where
  "old_and_terminated =
     sample_registry [sample_group ''a'' 1000 False, sample_group ''b'' 1050 True] [1] 0"

definition stale_group :: Storage where
  "stale_group =
     sample_registry [sample_group ''a'' 1000 False, sample_group ''b'' 1050 False] [] 1"

definition terminated_twice :: Storage where
  "terminated_twice =
     sample_registry [sample_group ''a'' 1000 False, sample_group ''b'' 1050 True] [1, 1] 0"

definition old_and_new :: Storage where
  "old_and_new =
     sample_registry [sample_group ''a'' 1000 False, sample_group ''b'' 1050 False] [] 0"

section \<open>Properties of the result preparation\<close>

text \<open>
  C2, as stated, at an input where it fails: member 1 is both disqualified and inactive
  and the threshold is 2. The union has one element, which is within half the threshold,
  yet the code counts the member twice and produces a failed result.
\<close>

theorem PrepareResult_union_counterexample:
  "int (card (set [1 :: MemberID] \<union> set [1])) \<le> go_quot 2 2 \<and>
   result (PrepareResult (sample_member 2 [1] [1] 0)) =
     Some \<lparr>Success = False, GroupPublicKey = None, Disqualified = [1], Inactive = []\<rparr>"
  by (simp add: sample_member_def PrepareResult_def Let_def go_quot_def)

text \<open>
  C2, amended: \<open>PrepareResult\<close> always produces a result, and it is successful iff the
  number of disqualified members plus the number of inactive members is at most half the
  dishonest threshold, under Go's truncating division (the rounded-down half for a
  threshold that is not negative). Where the two lists have no duplicates and no member in
  common, that sum is the size of their union. A failed result carries no group public key
  and no inactive members, only the disqualified ones; a successful one carries the key
  and both lists.
\<close>

theorem PrepareResult_success_iff:
  "\<exists>r. result (PrepareResult pm) = Some r \<and>
     (Success r \<longleftrightarrow>
        int (length (DisqualifiedMembers (group pm))) + int (length (InactiveMembers (group pm)))
          \<le> go_quot (dishonestThreshold (group pm)) 2) \<and>
     (0 \<le> dishonestThreshold (group pm) \<longrightarrow>
        go_quot (dishonestThreshold (group pm)) 2 = dishonestThreshold (group pm) div 2) \<and>
     (distinct (DisqualifiedMembers (group pm)) \<and> distinct (InactiveMembers (group pm)) \<and>
      set (DisqualifiedMembers (group pm)) \<inter> set (InactiveMembers (group pm)) = {} \<longrightarrow>
        (Success r \<longleftrightarrow>
           int (card (set (DisqualifiedMembers (group pm)) \<union> set (InactiveMembers (group pm))))
             \<le> go_quot (dishonestThreshold (group pm)) 2)) \<and>
     (\<not> Success r \<longrightarrow>
        GroupPublicKey r = None \<and> Inactive r = [] \<and>
        Disqualified r = DisqualifiedMembers (group pm)) \<and>
     (Success r \<longrightarrow>
        GroupPublicKey r \<noteq> None \<and> Inactive r = InactiveMembers (group pm) \<and>
        Disqualified r = DisqualifiedMembers (group pm))"
proof -
  have half: "0 \<le> t \<Longrightarrow> go_quot t 2 = t div 2" for t :: int
    by (cases "t = 0") (simp_all add: go_quot_def sgn_if)
  have union: "distinct d \<Longrightarrow> distinct i \<Longrightarrow> set d \<inter> set i = {} \<Longrightarrow>
      int (card (set d \<union> set i)) = int (length d) + int (length i)" for d i :: "MemberID list"
    by (simp add: card_Un_disjoint distinct_card)
  show ?thesis
  proof (cases "int (length (DisqualifiedMembers (group pm)))
                  + int (length (InactiveMembers (group pm)))
                > go_quot (dishonestThreshold (group pm)) 2")
    case True
    then show ?thesis
      using half [of "dishonestThreshold (group pm)"]
        union [of "DisqualifiedMembers (group pm)" "InactiveMembers (group pm)"]
      by (simp add: PrepareResult_def Let_def)
  next
    case False
    then show ?thesis
      using half [of "dishonestThreshold (group pm)"]
        union [of "DisqualifiedMembers (group pm)" "InactiveMembers (group pm)"]
      by (simp add: PrepareResult_def Let_def)
  qed
qed

text \<open>
  The amended C2 at two inputs: threshold 4 with member 1 disqualified and member 2
  inactive succeeds; threshold 2 with members 1 and 2 disqualified and member 3 inactive
  fails, and the failed result keeps the disqualified members only.
\<close>

theorem PrepareResult_success_iff_witness:
  "(0 :: int) \<le> 4 \<and> distinct [1 :: MemberID] \<and> distinct [2 :: MemberID] \<and>
   set [1 :: MemberID] \<inter> set [2] = {} \<and>
   result (PrepareResult (sample_member 4 [1] [2] 0)) =
     Some \<lparr>Success = True, GroupPublicKey = Some 123, Disqualified = [1], Inactive = [2]\<rparr> \<and>
   result (PrepareResult (sample_member 2 [1, 2] [3] 0)) =
     Some \<lparr>Success = False, GroupPublicKey = None, Disqualified = [1, 2], Inactive = []\<rparr>"
proof -
  from PrepareResult_success_iff [of "sample_member 4 [1] [2] 0"]
  obtain r where r: "result (PrepareResult (sample_member 4 [1] [2] 0)) = Some r"
    and "Success r" "GroupPublicKey r \<noteq> None" "Inactive r = [2]" "Disqualified r = [1]"
    by (auto simp: sample_member_def go_quot_def)
  from PrepareResult_success_iff [of "sample_member 2 [1, 2] [3] 0"]
  obtain r' where r': "result (PrepareResult (sample_member 2 [1, 2] [3] 0)) = Some r'"
    and "\<not> Success r'" "GroupPublicKey r' = None" "Inactive r' = []" "Disqualified r' = [1, 2]"
    by (auto simp: sample_member_def go_quot_def)
  show ?thesis
    using r r' by (simp add: sample_member_def PrepareResult_def Let_def go_quot_def)
qed

section \<open>Properties of the publisher eligibility\<close>

lemma selectPublishers_take:
  "selectPublishers highest i members = take (nat (highest - i + 1)) members"
proof (induction members arbitrary: i)
  case Nil
  show ?case by simp
next
  case (Cons m members)
  show ?case
  proof (cases "i \<le> highest")
    case True
    then have "nat (highest - i + 1) = Suc (nat (highest - (i + 1) + 1))" by simp
    with True Cons.IH [of "i + 1"] show ?thesis by simp
  next
    case False
    then show ?thesis by simp
  qed
qed

lemma int64_in_range:
  "- (2 ^ 63) \<le> x \<Longrightarrow> x < 2 ^ 63 \<Longrightarrow> int64 x = x"
  by (simp add: int64_def)

lemma ulp_from_small:
  "n < 2 ^ 53 \<Longrightarrow> ulp_from 1 n = 1"
  by (subst ulp_from.simps) simp

lemma float64_exact:
  assumes "\<bar>x\<bar> < 2 ^ 53"
  shows "float64 x = real_of_int x"
proof -
  have "nat \<bar>x\<bar> < 2 ^ 53" using assms by (simp add: nat_less_iff)
  then have "ulp_from 1 (nat \<bar>x\<bar>) = 1" by (rule ulp_from_small)
  then have "float64 x = real_of_int (sgn x * \<bar>x\<bar>)"
    by (simp add: float64_def Let_def)
  then show ?thesis by (simp add: mult_sgn_abs)
qed

text \<open>
  At the edges the model follows the machine: the float of \<open>2 ^ 53 + 1\<close> is
  \<open>2 ^ 53\<close>, and the difference of the greatest \<open>int\<close> and \<open>-1\<close> is the least.
\<close>

lemma float64_rounds_to_even:
  "float64 (2 ^ 53 + 1) = 2 ^ 53"
proof -
  have u: "ulp_from (Suc 0) 9007199254740993 = 2"
    by (subst ulp_from.simps, simp, subst ulp_from.simps, simp)
  show ?thesis
    by (simp add: float64_def Let_def u)
qed

lemma int64_wraps_around:
  "int64 (2 ^ 63 - 1 - (- 1)) = - (2 ^ 63)"
  by (simp add: int64_def)

lemma int_of_float64_exact:
  assumes "- (2 ^ 63) \<le> k" "k < 2 ^ 63"
  shows "int_of_float64 (math_Ceil (real_of_int k)) = k"
proof -
  have "real_of_int (- (2 ^ 63)) \<le> real_of_int k" "real_of_int k < real_of_int (2 ^ 63)"
    using assms by (simp_all only: of_int_le_iff of_int_less_iff)
  then have "- (2 ^ 63) \<le> real_of_int k" "real_of_int k < 2 ^ 63"
    by simp_all
  then show ?thesis by (simp add: int_of_float64_def math_Ceil_def)
qed

lemma quotient_le_dividend:
  "0 < (s :: int) \<Longrightarrow> 0 < b \<Longrightarrow> s div b \<le> s"
  using zdiv_mono2 [of s 1 b] by simp

lemma determinePublishersIDs_in_time:
  assumes "CurrentBlock (protocolConfig_chain pm) = Inr currentBlock"
    and "int64 (currentBlock - initialBlockHeight (protocolConfig_chain pm))
           \<le> expectedProtocolDuration (protocolConfig_chain pm)"
  shows "determinePublishersIDs pm = Inr (take 1 (MemberIDs (group pm)))"
  using assms by (simp add: determinePublishersIDs_def Let_def selectPublishers_take)

text \<open>
  Past the expected duration, with a positive block step and all quantities inside the
  ranges of \<open>int\<close> and of the exact floats, the code takes the quotient rounded down.
\<close>

lemma determinePublishersIDs_rounds_down:
  assumes "CurrentBlock (protocolConfig_chain pm) = Inr currentBlock"
    and "currentBlock - initialBlockHeight (protocolConfig_chain pm)
           > expectedProtocolDuration (protocolConfig_chain pm)"
    and "0 < blockStep (protocolConfig_chain pm)"
    and "- (2 ^ 63) \<le> currentBlock - initialBlockHeight (protocolConfig_chain pm)"
    and "currentBlock - initialBlockHeight (protocolConfig_chain pm) < 2 ^ 63"
    and "currentBlock - initialBlockHeight (protocolConfig_chain pm)
           - expectedProtocolDuration (protocolConfig_chain pm) < 2 ^ 53"
  shows "determinePublishersIDs pm =
     Inr (take (nat ((currentBlock - initialBlockHeight (protocolConfig_chain pm)
                        - expectedProtocolDuration (protocolConfig_chain pm))
                       div blockStep (protocolConfig_chain pm)) + 1)
            (MemberIDs (group pm)))"
proof -
  let ?elapsed = "currentBlock - initialBlockHeight (protocolConfig_chain pm)"
  let ?surpass = "?elapsed - expectedProtocolDuration (protocolConfig_chain pm)"
  let ?step = "blockStep (protocolConfig_chain pm)"
  let ?q = "?surpass div ?step"
  have e: "int64 ?elapsed = ?elapsed"
    using assms(4,5) by (rule int64_in_range)
  have pos: "0 < ?surpass" using assms(2) by simp
  have s: "int64 ?surpass = ?surpass"
    using pos assms(6) by (intro int64_in_range) auto
  have nonneg: "0 \<le> ?q"
    using pos assms(3) by (simp add: pos_imp_zdiv_nonneg_iff)
  have "?q \<le> ?surpass"
    using pos assms(3) by (rule quotient_le_dividend)
  then have small: "?q < 2 ^ 53" using assms(6) by linarith
  have "go_quot ?surpass ?step = ?q"
    using pos assms(3) by (simp add: go_quot_def sgn_if)
  moreover have "int64 ?q = ?q"
    using nonneg small by (intro int64_in_range) auto
  ultimately have q: "go_div ?surpass ?step = Inr ?q"
    using assms(3) by (simp add: go_div_def)
  have "float64 ?q = real_of_int ?q"
    using nonneg small by (intro float64_exact) auto
  moreover have "int_of_float64 (math_Ceil (real_of_int ?q)) = ?q"
    using nonneg small by (intro int_of_float64_exact) auto
  ultimately have h: "int_of_float64 (math_Ceil (float64 ?q)) = ?q" by simp
  have "nat (?q + 1) = nat ?q + 1" using nonneg by simp
  then show ?thesis
    using assms(1,2) e s q h
    by (simp add: determinePublishersIDs_def Let_def selectPublishers_take)
qed

text \<open>
  C4 at the input where the code departs from it: three members, expected duration 10,
  block step 3, initial height 0, current block 11. One block past the expected duration
  the ceiling of 1/3 is 1, so the members at positions 0 and 1 are eligible by the
  specification; the code divides as integers before it rounds up and admits the first
  member only.
\<close>

theorem determinePublishersIDs_rounds_down_at_11:
  "determinePublishersIDs (sample_member 2 [] [] 11) = Inr [1] \<and>
   spec_eligible (11 - 0) 10 3 [1, 2, 3] = [1, 2]"
proof -
  have "\<lceil>1 / 3 :: real\<rceil> = 1" by (simp add: ceiling_eq_iff)
  then have "spec_eligible (11 - 0) 10 3 [1, 2, 3] = [1, 2]"
    by (simp add: spec_eligible_def spec_highestIndex_def)
  moreover have "determinePublishersIDs (sample_member 2 [] [] 11) = Inr [1]"
  proof -
    have q: "go_div 1 3 = Inr 0"
      by (simp add: go_div_def go_quot_def int64_def)
    have f: "float64 0 = 0"
      using float64_exact [of 0] by simp
    have h: "int_of_float64 (math_Ceil 0) = 0"
      by (simp add: int_of_float64_def math_Ceil_def)
    show ?thesis
      by (simp add: determinePublishersIDs_def sample_member_def int64_def q f h)
  qed
  ultimately show ?thesis by simp
qed

section \<open>Properties of the result submission\<close>

lemma selectLoop_other_requests:
  "requestID \<notin> set others \<Longrightarrow>
     selectLoop sm requestID res signatures chainRelay (map publishedResultEvent others @ schedule)
       = selectLoop sm requestID res signatures chainRelay schedule"
  by (induction others) auto

text \<open>
  C3: once the configuration is fetched and the subscription is set up,
  \<open>SubmitDKGResult\<close> returns nil and submits no transaction (it only releases the
  subscription and its channel) when the result is already on the chain at entry. When it
  is not, and the waiter is registered, events for other request IDs leave the call
  waiting, and the first event with this request ID makes it return nil, again with no
  transaction submitted, whatever the schedule holds after that event.
\<close>

theorem SubmitDKGResult_yields_to_published_result:
  assumes "GetConfig chainRelay = Inr config"
    and "OnDKGResultSubmitted chainRelay = None"
  shows "(IsDKGResultSubmitted chainRelay requestID = Inr True \<longrightarrow>
            SubmitDKGResult sm requestID res signatures chainRelay blockCounter schedule
              = (Returns None, [Unsubscribe, Close_onSubmittedResultChan])) \<and>
         (IsDKGResultSubmitted chainRelay requestID = Inr False \<and>
          waitForSubmissionEligibility sm blockCounter (ResultPublicationBlockStep config) = Inr w \<and>
          requestID \<notin> set others \<longrightarrow>
            SubmitDKGResult sm requestID res signatures chainRelay blockCounter
                (map publishedResultEvent others)
              = (Blocks, [Register w]) \<and>
            SubmitDKGResult sm requestID res signatures chainRelay blockCounter
                (map publishedResultEvent others @ publishedResultEvent requestID # schedule)
              = (Returns None, [Register w, Unsubscribe, Close_onSubmittedResultChan]))"
proof (intro conjI impI)
  assume "IsDKGResultSubmitted chainRelay requestID = Inr True"
  with assms
  show "SubmitDKGResult sm requestID res signatures chainRelay blockCounter schedule
          = (Returns None, [Unsubscribe, Close_onSubmittedResultChan])"
    by (simp add: SubmitDKGResult_def)
next
  assume a: "IsDKGResultSubmitted chainRelay requestID = Inr False \<and>
          waitForSubmissionEligibility sm blockCounter (ResultPublicationBlockStep config) = Inr w \<and>
          requestID \<notin> set others"
  from a selectLoop_other_requests [of requestID others sm res signatures chainRelay "[]"]
  have "selectLoop sm requestID res signatures chainRelay (map publishedResultEvent others)
          = (Blocks, [])"
    by simp
  with a assms
  show "SubmitDKGResult sm requestID res signatures chainRelay blockCounter
            (map publishedResultEvent others) = (Blocks, [Register w])"
    by (simp add: SubmitDKGResult_def)
  from a selectLoop_other_requests [of requestID others sm res signatures chainRelay
         "publishedResultEvent requestID # schedule"]
  have "selectLoop sm requestID res signatures chainRelay
          (map publishedResultEvent others @ publishedResultEvent requestID # schedule)
          = (Returns None, [Unsubscribe, Close_onSubmittedResultChan])"
    by simp
  with a assms
  show "SubmitDKGResult sm requestID res signatures chainRelay blockCounter
            (map publishedResultEvent others @ publishedResultEvent requestID # schedule)
          = (Returns None, [Register w, Unsubscribe, Close_onSubmittedResultChan])"
    by (simp add: SubmitDKGResult_def)
qed

text \<open>
  C3 at concrete inputs, for member 3 and request 42: with the result already published
  the call returns at once; with it unpublished, the events for requests 41 and 43 are
  passed over and the event for request 42 ends the call before the waiter's delivery
  that follows it in the schedule is taken.
\<close>

theorem SubmitDKGResult_yields_to_published_result_witness:
  "GetConfig (sample_relay True) = Inr \<lparr>ResultPublicationBlockStep = 6\<rparr> \<and>
   OnDKGResultSubmitted (sample_relay True) = None \<and>
   IsDKGResultSubmitted (sample_relay True) 42 = Inr True \<and>
   SubmitDKGResult \<lparr>index = 3\<rparr> 42 () () (sample_relay True) sample_counter [eligibleToSubmit]
     = (Returns None, [Unsubscribe, Close_onSubmittedResultChan]) \<and>
   IsDKGResultSubmitted (sample_relay False) 42 = Inr False \<and>
   waitForSubmissionEligibility \<lparr>index = 3\<rparr> sample_counter 6 = Inr \<lparr>fireHeight = 512\<rparr> \<and>
   42 \<notin> set [41, 43 :: int] \<and>
   SubmitDKGResult \<lparr>index = 3\<rparr> 42 () () (sample_relay False) sample_counter
       (map publishedResultEvent [41, 43])
     = (Blocks, [Register \<lparr>fireHeight = 512\<rparr>]) \<and>
   SubmitDKGResult \<lparr>index = 3\<rparr> 42 () () (sample_relay False) sample_counter
       (map publishedResultEvent [41, 43] @ publishedResultEvent 42 # [eligibleToSubmit])
     = (Returns None, [Register \<lparr>fireHeight = 512\<rparr>, Unsubscribe, Close_onSubmittedResultChan])"
proof -
  have w: "waitForSubmissionEligibility \<lparr>index = 3\<rparr> sample_counter 6 = Inr \<lparr>fireHeight = 512\<rparr>"
    by (simp add: waitForSubmissionEligibility_def sample_counter_def counting_from_def
          int64_def)
  show ?thesis
    using w
      SubmitDKGResult_yields_to_published_result
        [where chainRelay = "sample_relay True" and config = "\<lparr>ResultPublicationBlockStep = 6\<rparr>"
           and requestID = 42 and sm = "\<lparr>index = 3\<rparr>" and res = "()" and signatures = "()"
           and blockCounter = sample_counter and schedule = "[eligibleToSubmit]"]
      SubmitDKGResult_yields_to_published_result
        [where chainRelay = "sample_relay False" and config = "\<lparr>ResultPublicationBlockStep = 6\<rparr>"
           and requestID = 42 and sm = "\<lparr>index = 3\<rparr>" and res = "()" and signatures = "()"
           and blockCounter = sample_counter and schedule = "[eligibleToSubmit]"
           and w = "\<lparr>fireHeight = 512\<rparr>" and others = "[41, 43]"]
    by (simp add: sample_relay_def)
qed

text \<open>
  What the code decides about the waiter: with a block counter that counts from a height
  \<open>base\<close>, and the index and the product inside the range of \<open>int\<close>, the waiter of
  the member with index \<open>i\<close> fires exactly from \<open>base + (i - 1) * blockStep\<close> on. The
  base is the block counter's: the call hands over the product alone.
\<close>

lemma waitForSubmissionEligibility_counting_from:
  assumes "int (index sm) < 2 ^ 63"
    and "- (2 ^ 63) \<le> (int (index sm) - 1) * step" "(int (index sm) - 1) * step < 2 ^ 63"
  shows "waitForSubmissionEligibility sm (counting_from base) step =
           Inr \<lparr>fireHeight = base + (int (index sm) - 1) * step\<rparr>"
proof -
  have "int64 (int (index sm)) = int (index sm)"
    using assms(1) by (intro int64_in_range) auto
  moreover have "int64 (int (index sm) - 1) = int (index sm) - 1"
    using assms(1) by (intro int64_in_range) auto
  moreover have "int64 ((int (index sm) - 1) * step) = (int (index sm) - 1) * step"
    using assms(2,3) by (rule int64_in_range)
  ultimately show ?thesis
    by (simp add: waitForSubmissionEligibility_def counting_from_def)
qed

text \<open>The product wraps: for member 5 and a block step of \<open>2 ^ 62\<close> it is 0.\<close>

lemma waitForSubmissionEligibility_wraps:
  "waitForSubmissionEligibility \<lparr>index = 5\<rparr> (counting_from base) (2 ^ 62) =
     Inr \<lparr>fireHeight = base\<rparr>"
  by (simp add: waitForSubmissionEligibility_def counting_from_def int64_def)


section \<open>Properties of the group registry\<close>

declare advanceExpiredGroupOffset.simps [simp del]
declare removeExpiredTerminated.simps [simp del]

lemmas registry_eval =
  sample_registry_def sample_group_def expireOldGroups_def advanceExpiredGroupOffset.simps
  removeExpiredTerminated.simps groupActiveTimeOf_def groupStaleTime_def SafeMath_add_def
  SafeMath_sub_def MAX_UINT256_def numberOfGroups_def selectGroup_def shiftByExpiredGroups_def
  shiftByTerminatedGroups_def isStaleGroup_def

subsection \<open>The expiry scan\<close>

lemma groupActiveTimeOf_offset [simp]:
  "groupActiveTimeOf (self\<lparr>expiredGroupOffset := k\<rparr>) g = groupActiveTimeOf self g"
  by (simp add: groupActiveTimeOf_def)

text \<open>
  Where the scan returns, it has only moved the offset, forwards, to a group inside the
  array whose active time has not passed.
\<close>

lemma advanceExpiredGroupOffset_result:
  "advanceExpiredGroupOffset self bn = Inr self' \<Longrightarrow>
     \<exists>k. self' = self\<lparr>expiredGroupOffset := k\<rparr> \<and> expiredGroupOffset self \<le> k \<and>
         k < length (groups self) \<and>
         (\<exists>t. groupActiveTimeOf self (groups self ! k) = Inr t \<and> \<not> t < bn)"
proof (induction self bn rule: advanceExpiredGroupOffset.induct)
  case (1 self bn)
  show ?case
  proof (cases "expiredGroupOffset self < length (groups self)")
    case False
    with "1.prems" show ?thesis by (simp add: advanceExpiredGroupOffset.simps)
  next
    case inside: True
    show ?thesis
    proof (cases "groupActiveTimeOf self (groups self ! expiredGroupOffset self)")
      case (Inl e)
      with "1.prems" inside show ?thesis by (simp add: advanceExpiredGroupOffset.simps)
    next
      case (Inr t)
      show ?thesis
      proof (cases "t < bn")
        case True
        with "1.prems" inside Inr
        have next_step: "advanceExpiredGroupOffset
                      (self\<lparr>expiredGroupOffset := expiredGroupOffset self + 1\<rparr>) bn = Inr self'"
          by (simp add: advanceExpiredGroupOffset.simps [of self])
        from "1.IH" [OF inside Inr True next_step]
        obtain k where "self' = self\<lparr>expiredGroupOffset := k\<rparr>"
          "expiredGroupOffset self + 1 \<le> k" "k < length (groups self)"
          "\<exists>t. groupActiveTimeOf self (groups self ! k) = Inr t \<and> \<not> t < bn"
          by auto
        then show ?thesis by (intro exI [of _ k]) auto
      next
        case False
        with "1.prems" inside Inr have "self' = self"
          by (simp add: advanceExpiredGroupOffset.simps [of self])
        with inside Inr False show ?thesis
          by (intro exI [of _ "expiredGroupOffset self"]) auto
      qed
    qed
  qed
qed

lemma advanceExpiredGroupOffset_stays:
  "expiredGroupOffset self < length (groups self) \<Longrightarrow>
   groupActiveTimeOf self (groups self ! expiredGroupOffset self) = Inr t \<Longrightarrow> \<not> t < bn \<Longrightarrow>
   advanceExpiredGroupOffset self bn = Inr self"
  by (simp add: advanceExpiredGroupOffset.simps [of self])

text \<open>The offset part of the expiry is idempotent at a fixed height.\<close>

lemma advanceExpiredGroupOffset_idem:
  assumes "advanceExpiredGroupOffset self bn = Inr self'"
  shows "advanceExpiredGroupOffset self' bn = Inr self'"
proof -
  from advanceExpiredGroupOffset_result [OF assms] obtain k t where
    k: "self' = self\<lparr>expiredGroupOffset := k\<rparr>" "k < length (groups self)"
       "groupActiveTimeOf self (groups self ! k) = Inr t" "\<not> t < bn"
    by auto
  show ?thesis
    by (rule advanceExpiredGroupOffset_stays [where t = t]) (use k in auto)
qed

lemma expireOldGroups_result:
  assumes "expireOldGroups self bn = Inr self'"
  shows "\<exists>k. self' = self\<lparr>expiredGroupOffset := k,
                  activeTerminatedGroups :=
                    removeExpiredTerminated k (activeTerminatedGroups self) 0\<rparr> \<and>
             expiredGroupOffset self \<le> k \<and> k < length (groups self) \<and>
             (\<exists>t. groupActiveTimeOf self (groups self ! k) = Inr t \<and> \<not> t < bn)"
proof -
  from assms obtain s1 where s1: "advanceExpiredGroupOffset self bn = Inr s1"
    and self': "self' = s1\<lparr>activeTerminatedGroups :=
                 removeExpiredTerminated (expiredGroupOffset s1) (activeTerminatedGroups s1) 0\<rparr>"
    by (auto simp: expireOldGroups_def split: sum.splits)
  from advanceExpiredGroupOffset_result [OF s1] obtain k where
    k: "s1 = self\<lparr>expiredGroupOffset := k\<rparr>" "expiredGroupOffset self \<le> k"
       "k < length (groups self)"
       "\<exists>t. groupActiveTimeOf self (groups self ! k) = Inr t \<and> \<not> t < bn"
    by auto
  show ?thesis using k self' by (intro exI [of _ k]) simp
qed

text \<open>The expired-group offset never decreases across a call.\<close>

lemma expireOldGroups_offset_mono:
  "expireOldGroups self bn = Inr self' \<Longrightarrow> expiredGroupOffset self \<le> expiredGroupOffset self'"
  by (drule expireOldGroups_result) auto

lemma selectGroup_after_expiry:
  assumes "numberOfGroups self = Inr n" "0 < n" "expireOldGroups self bn = Inr self'"
  shows "selectGroup self bn seed =
     (case numberOfGroups self' of
        Inl e \<Rightarrow> Inl e
      | Inr n' \<Rightarrow>
          if n' = 0 then Inl DivisionByZero
          else (case shiftByExpiredGroups self' (seed mod n') of
                  Inl e \<Rightarrow> Inl e
                | Inr shifted \<Rightarrow> Inr (self', shiftByTerminatedGroups self' shifted)))"
  using assms by (simp add: selectGroup_def)

subsection \<open>Selection among five groups\<close>

text \<open>
  C1: in every registry with five groups whose tracked terminated groups are exactly group
  2 and whose expired-group offset is 1, \<open>numberOfGroups\<close> returns 3, and for a seed in
  \<open>{0, 1, 2}\<close>, at any block height, whatever \<open>selectGroup\<close> returns is one of 1, 3, 4
  and is neither below the offset nor a tracked terminated group of the state it leaves.
  When group 1 has not expired at that height, \<open>selectGroup\<close> does return, leaves the
  registry as it was and maps the seeds 0, 1, 2 to the groups 1, 3, 4. The only way for
  \<open>selectGroup\<close> to fail on such a registry is a revert of the expiry it runs.
\<close>

theorem selectGroup_five_groups:
  assumes "length (groups self) = 5"
    and "activeTerminatedGroups self = [2]"
    and "expiredGroupOffset self = 1"
    and "seed \<in> {0, 1, 2}"
  shows "numberOfGroups self = Inr 3 \<and>
         (\<forall>self' i. selectGroup self block_number seed = Inr (self', i) \<longrightarrow>
            i \<in> {1, 3, 4} \<and> expiredGroupOffset self' \<le> i \<and>
            i \<notin> set (activeTerminatedGroups self')) \<and>
         (\<forall>t. groupActiveTimeOf self (groups self ! 1) = Inr t \<and> \<not> t < block_number \<longrightarrow>
            selectGroup self block_number seed = Inr (self, [1, 3, 4] ! seed)) \<and>
         (\<forall>e. selectGroup self block_number seed = Inl e \<longrightarrow>
            expireOldGroups self block_number = Inl e)"
proof (intro conjI allI impI)
  show n: "numberOfGroups self = Inr 3"
    using assms by (simp add: numberOfGroups_def SafeMath_sub_def)
  {
    fix e
    assume failed: "selectGroup self block_number seed = Inl e"
    show "expireOldGroups self block_number = Inl e"
    proof (cases "expireOldGroups self block_number")
      case (Inl e')
      with failed n show ?thesis by (simp add: selectGroup_def)
    next
      case (Inr s1)
      from expireOldGroups_result [OF Inr] obtain k where
        k: "s1 = self\<lparr>expiredGroupOffset := k,
                    activeTerminatedGroups :=
                      removeExpiredTerminated k (activeTerminatedGroups self) 0\<rparr>"
           "expiredGroupOffset self \<le> k" "k < length (groups self)"
        by auto
      from k assms have "k = 1 \<or> k = 2 \<or> k = 3 \<or> k = 4" by auto
      then have False
        using failed assms(4)
        unfolding selectGroup_after_expiry [OF n _ Inr, simplified]
        by (elim disjE)
           (auto simp: k assms(1,2) removeExpiredTerminated.simps numberOfGroups_def
              SafeMath_sub_def shiftByExpiredGroups_def SafeMath_add_def MAX_UINT256_def)
      then show ?thesis ..
    qed
  }
  {
    fix self' i
    assume sel: "selectGroup self block_number seed = Inr (self', i)"
    from sel n obtain s1 where s1: "expireOldGroups self block_number = Inr s1"
      by (auto simp: selectGroup_def split: sum.splits)
    from expireOldGroups_result [OF s1] obtain k where
      k: "s1 = self\<lparr>expiredGroupOffset := k,
                  activeTerminatedGroups :=
                    removeExpiredTerminated k (activeTerminatedGroups self) 0\<rparr>"
         "expiredGroupOffset self \<le> k" "k < length (groups self)"
      by auto
    from k assms have "k = 1 \<or> k = 2 \<or> k = 3 \<or> k = 4" by auto
    then have "i \<in> {1, 3, 4} \<and> expiredGroupOffset self' \<le> i \<and>
               i \<notin> set (activeTerminatedGroups self')"
      using sel assms(4)
      unfolding selectGroup_after_expiry [OF n _ s1, simplified]
      by (elim disjE)
         (auto simp: k assms(1,2) removeExpiredTerminated.simps numberOfGroups_def
            SafeMath_sub_def shiftByExpiredGroups_def SafeMath_add_def MAX_UINT256_def
            shiftByTerminatedGroups_def)
    then show "i \<in> {1, 3, 4}" "expiredGroupOffset self' \<le> i"
      "i \<notin> set (activeTerminatedGroups self')"
      by auto
  }
  {
    fix t
    assume t: "groupActiveTimeOf self (groups self ! 1) = Inr t \<and> \<not> t < block_number"
    have adv: "advanceExpiredGroupOffset self block_number = Inr self"
      by (rule advanceExpiredGroupOffset_stays [where t = t]) (use t assms in auto)
    have ex: "expireOldGroups self block_number = Inr self"
      using assms by (simp add: expireOldGroups_def adv removeExpiredTerminated.simps)
    show "selectGroup self block_number seed = Inr (self, [1, 3, 4] ! seed)"
      using assms(4) unfolding selectGroup_after_expiry [OF n _ ex, simplified]
      by (auto simp: n assms(2,3) shiftByExpiredGroups_def SafeMath_add_def MAX_UINT256_def
            shiftByTerminatedGroups_def)
  }
qed

text \<open>
  C1 on a registry of five groups registered at the heights 1000 to 1040 with an active
  time of 100: at height 1105 group 1 is still active and seed 1 selects group 3; at
  height 1125 the groups 1 and 2 have expired as well and seed 1 selects group 4.
\<close>

theorem selectGroup_five_groups_witness:
  "length (groups five_groups) = 5 \<and> activeTerminatedGroups five_groups = [2] \<and>
   expiredGroupOffset five_groups = 1 \<and> (1 :: nat) \<in> {0, 1, 2} \<and>
   groupActiveTimeOf five_groups (groups five_groups ! 1) = Inr 1110 \<and> \<not> (1110 :: nat) < 1105 \<and>
   numberOfGroups five_groups = Inr 3 \<and>
   selectGroup five_groups 1105 1 = Inr (five_groups, 3) \<and>
   selectGroup five_groups 1125 1 =
     Inr (five_groups\<lparr>activeTerminatedGroups := [], expiredGroupOffset := 3\<rparr>, 4) \<and>
   (4 :: nat) \<in> {1, 3, 4}"
proof -
  have h: "length (groups five_groups) = 5" "activeTerminatedGroups five_groups = [2]"
    "expiredGroupOffset five_groups = 1" "(1 :: nat) \<in> {0, 1, 2}"
    by (simp_all add: five_groups_def sample_registry_def)
  have t: "groupActiveTimeOf five_groups (groups five_groups ! 1) = Inr 1110"
    by (simp add: five_groups_def registry_eval)
  have later: "selectGroup five_groups 1125 1 =
     Inr (five_groups\<lparr>activeTerminatedGroups := [], expiredGroupOffset := 3\<rparr>, 4)"
    by (simp add: five_groups_def registry_eval)
  from selectGroup_five_groups [OF h, of 1105] t
  have "numberOfGroups five_groups = Inr 3"
    and "selectGroup five_groups 1105 1 = Inr (five_groups, 3)"
    by simp_all
  moreover
  from selectGroup_five_groups [OF h, of 1125] later
  have "(4 :: nat) \<in> {1, 3, 4}" by blast
  ultimately show ?thesis using h t later by simp
qed

subsection \<open>Expiry and staleness heights\<close>

text \<open>
  C5, as stated, at the heights it names: with an active time of 100, a relay entry
  timeout of 20 and a registration at height 1000, \<open>expireOldGroups\<close> at height 1100
  leaves the offset on the group (the registry is unchanged), and \<open>isStaleGroup\<close> at
  height 1120 is false.
\<close>

theorem expiry_at_1100_counterexample:
  "groupActiveTime old_and_new = 100 \<and> relayEntryTimeout old_and_new = 20 \<and>
   registrationBlockHeight (groups old_and_new ! 0) = 1000 \<and>
   expiredGroupOffset old_and_new = 0 \<and>
   expireOldGroups old_and_new 1100 = Inr old_and_new \<and>
   isStaleGroup old_and_new 1120 0 = Inr False"
  by (simp add: old_and_new_def registry_eval)

text \<open>
  C5, amended: for a group with \<open>groupActiveTime = 100\<close>, \<open>relayEntryTimeout = 20\<close> and
  \<open>registrationBlockHeight = 1000\<close>, \<open>groupActiveTimeOf\<close> is 1100 and \<open>groupStaleTime\<close> is
  1120; \<open>isStaleGroup\<close> holds exactly at the heights above 1120, and when the offset
  stands on the group, \<open>expireOldGroups\<close> moves it past the group exactly at the heights
  above 1100 (up to height 1100 it returns and the offset stays).
\<close>

theorem expiry_above_1100_stale_above_1120:
  assumes "groupActiveTime self = 100" "relayEntryTimeout self = 20"
    and "i < length (groups self)" "registrationBlockHeight (groups self ! i) = 1000"
  shows "groupActiveTimeOf self (groups self ! i) = Inr 1100 \<and>
         groupStaleTime self (groups self ! i) = Inr 1120 \<and>
         isStaleGroup self block_number i = Inr (1120 < block_number) \<and>
         (expiredGroupOffset self = i \<longrightarrow>
            (block_number \<le> 1100 \<longrightarrow> (\<exists>self'. expireOldGroups self block_number = Inr self')) \<and>
            (\<forall>self'. expireOldGroups self block_number = Inr self' \<longrightarrow>
               (i < expiredGroupOffset self' \<longleftrightarrow> 1100 < block_number)))"
proof -
  have a: "groupActiveTimeOf self (groups self ! i) = Inr 1100"
    using assms by (simp add: groupActiveTimeOf_def SafeMath_add_def MAX_UINT256_def)
  have s: "groupStaleTime self (groups self ! i) = Inr 1120"
    using assms by (simp add: groupStaleTime_def a SafeMath_add_def MAX_UINT256_def)
  have st: "isStaleGroup self block_number i = Inr (1120 < block_number)"
    using assms by (simp add: isStaleGroup_def s)
  {
    assume off: "expiredGroupOffset self = i" and bn: "block_number \<le> 1100"
    have "advanceExpiredGroupOffset self block_number = Inr self"
      by (rule advanceExpiredGroupOffset_stays [where t = 1100]) (use off bn a assms in auto)
    then have "\<exists>self'. expireOldGroups self block_number = Inr self'"
      by (simp add: expireOldGroups_def)
  } note returns = this
  {
    fix self'
    assume off: "expiredGroupOffset self = i"
      and e: "expireOldGroups self block_number = Inr self'"
    from expireOldGroups_result [OF e] obtain k t where
      k: "expiredGroupOffset self' = k" "i \<le> k" "k < length (groups self)"
         "groupActiveTimeOf self (groups self ! k) = Inr t" "\<not> t < block_number"
      using off by auto
    have "i < expiredGroupOffset self' \<longleftrightarrow> 1100 < block_number"
    proof (cases "1100 < block_number")
      case True
      have "k \<noteq> i" using k a True by auto
      with k show ?thesis using True by simp
    next
      case False
      have "advanceExpiredGroupOffset self block_number = Inr self"
        by (rule advanceExpiredGroupOffset_stays [where t = 1100]) (use off False a assms in auto)
      with e have "expiredGroupOffset self' = i" using off
        by (auto simp: expireOldGroups_def)
      with False show ?thesis by simp
    qed
  } note moves = this
  show ?thesis using a s st returns moves by blast
qed

text \<open>
  The amended C5 on a registry of two groups: the first expiry is at height 1101, the
  first stale height is 1121.
\<close>

theorem expiry_above_1100_stale_above_1120_witness:
  "groupActiveTime old_and_new = 100 \<and> relayEntryTimeout old_and_new = 20 \<and>
   0 < length (groups old_and_new) \<and>
   registrationBlockHeight (groups old_and_new ! 0) = 1000 \<and>
   expiredGroupOffset old_and_new = 0 \<and>
   groupActiveTimeOf old_and_new (groups old_and_new ! 0) = Inr 1100 \<and>
   groupStaleTime old_and_new (groups old_and_new ! 0) = Inr 1120 \<and>
   isStaleGroup old_and_new 1121 0 = Inr True \<and>
   expireOldGroups old_and_new 1101 = Inr (old_and_new\<lparr>expiredGroupOffset := 1\<rparr>) \<and>
   (0 :: nat) < expiredGroupOffset (old_and_new\<lparr>expiredGroupOffset := 1\<rparr>)"
proof -
  have h: "groupActiveTime old_and_new = 100" "relayEntryTimeout old_and_new = 20"
    "0 < length (groups old_and_new)" "registrationBlockHeight (groups old_and_new ! 0) = 1000"
    by (simp_all add: old_and_new_def sample_registry_def sample_group_def)
  have off: "expiredGroupOffset old_and_new = 0"
    by (simp add: old_and_new_def sample_registry_def)
  have e: "expireOldGroups old_and_new 1101 = Inr (old_and_new\<lparr>expiredGroupOffset := 1\<rparr>)"
    by (simp add: old_and_new_def registry_eval)
  from expiry_above_1100_stale_above_1120 [OF h, of 1101] off e
  have "(0 :: nat) < expiredGroupOffset (old_and_new\<lparr>expiredGroupOffset := 1\<rparr>)"
    by simp
  moreover
  from expiry_above_1100_stale_above_1120 [OF h, of 1121]
  have "groupActiveTimeOf old_and_new (groups old_and_new ! 0) = Inr 1100"
    "groupStaleTime old_and_new (groups old_and_new ! 0) = Inr 1120"
    "isStaleGroup old_and_new 1121 0 = Inr True"
    by simp_all
  ultimately show ?thesis using h off e by simp
qed

subsection \<open>Repeated expiry\<close>

text \<open>
  The offset part of a repeated expiry is as the specification has it: a second call at
  the same height returns and leaves the offset where the first call put it.
\<close>

lemma expireOldGroups_offset_idem:
  assumes "expireOldGroups self bn = Inr s1"
  shows "\<exists>s2. expireOldGroups s1 bn = Inr s2 \<and> expiredGroupOffset s2 = expiredGroupOffset s1"
proof -
  from expireOldGroups_result [OF assms] obtain k t where
    k: "s1 = self\<lparr>expiredGroupOffset := k,
                activeTerminatedGroups :=
                  removeExpiredTerminated k (activeTerminatedGroups self) 0\<rparr>"
       "k < length (groups self)"
       "groupActiveTimeOf self (groups self ! k) = Inr t" "\<not> t < bn"
    by auto
  have "advanceExpiredGroupOffset s1 bn = Inr s1"
    by (rule advanceExpiredGroupOffset_stays [where t = t])
       (use k in \<open>auto simp: groupActiveTimeOf_def\<close>)
  then show ?thesis by (simp add: expireOldGroups_def)
qed

lemma two_terminated_fields:
  "groups two_terminated =
     [sample_group ''a'' 1000 True, sample_group ''b'' 1000 True, sample_group ''c'' 1090 False] \<and>
   activeTerminatedGroups two_terminated = [0, 1] \<and>
   expiredGroupOffset two_terminated = 0 \<and> groupActiveTime two_terminated = 100"
  by (simp add: two_terminated_def genesis_def run_def addGroup_def terminateGroup_def
        commit_def sample_registry_def sample_group_def)

text \<open>
  C6 at the input where the code departs from it: the groups 0 and 1, registered at
  height 1000, are terminated and tracked as \<open>[0, 1]\<close>; group 2 is registered at height
  1090; the active time is 100. At height 1101 the first call of \<open>expireOldGroups\<close> moves
  the offset to 2 and removes entry 0 by moving the last entry, 1, into its place; the
  loop then steps over that place, so entry 1 stays behind although it is below the
  offset. A second call at the same height removes it: the tracked list changes from
  \<open>[1]\<close> to \<open>[]\<close>.
\<close>

theorem expireOldGroups_leaves_covered_entry:
  "map_sum id offset_and_terminated (expireOldGroups two_terminated 1101) = Inr (2, [1]) \<and>
   map_sum id offset_and_terminated
     (expireOldGroups (commit two_terminated (expireOldGroups two_terminated 1101)) 1101)
     = Inr (2, [])"
proof -
  obtain gi gm gr wd where t: "two_terminated =
      \<lparr>groupActiveTime = 100, relayEntryTimeout = 20, groupIndices = gi,
       groups = [sample_group ''a'' 1000 True, sample_group ''b'' 1000 True,
                 sample_group ''c'' 1090 False],
       activeTerminatedGroups = [0, 1], groupMembers = gm, groupMemberRewards = gr,
       withdrawn = wd, expiredGroupOffset = 0\<rparr>"
    by (simp add: two_terminated_def genesis_def run_def addGroup_def terminateGroup_def
          commit_def sample_registry_def sample_group_def)
  have first: "expireOldGroups two_terminated 1101 =
      Inr (two_terminated\<lparr>activeTerminatedGroups := [1], expiredGroupOffset := 2\<rparr>)"
    unfolding t by (simp add: registry_eval)
  have second: "expireOldGroups
        (two_terminated\<lparr>activeTerminatedGroups := [1], expiredGroupOffset := 2\<rparr>) 1101 =
      Inr (two_terminated\<lparr>activeTerminatedGroups := [], expiredGroupOffset := 2\<rparr>)"
    unfolding t by (simp add: registry_eval)
  show ?thesis
    using first second by (simp add: commit_def offset_and_terminated_def)
qed

text \<open>
  What the entry left behind costs: group 2 is active and not terminated, yet the count
  after the first expiry is zero and a selection at that height reverts.
\<close>

lemma selectGroup_after_incomplete_removal:
  "map_sum id numberOfGroups (expireOldGroups two_terminated 1101) = Inr (Inr 0) \<and>
   selectGroup two_terminated 1101 seed = Inl DivisionByZero"
proof -
  obtain gi gm gr wd where t: "two_terminated =
      \<lparr>groupActiveTime = 100, relayEntryTimeout = 20, groupIndices = gi,
       groups = [sample_group ''a'' 1000 True, sample_group ''b'' 1000 True,
                 sample_group ''c'' 1090 False],
       activeTerminatedGroups = [0, 1], groupMembers = gm, groupMemberRewards = gr,
       withdrawn = wd, expiredGroupOffset = 0\<rparr>"
    by (simp add: two_terminated_def genesis_def run_def addGroup_def terminateGroup_def
          commit_def sample_registry_def sample_group_def)
  show ?thesis unfolding t by (simp add: registry_eval)
qed

subsection \<open>Selection after the guard\<close>

text \<open>
  C9: there are registries that pass the guard of \<open>selectGroup\<close> with a positive
  \<open>numberOfGroups\<close> and whose remaining active groups all expire in the call. In one the
  expiry scan runs past the end of the array and reverts; in another the scan stops on a
  terminated group, the count taken after the expiry is zero, and the remainder by it
  reverts. In both, \<open>selectGroup\<close> fails.
\<close>

theorem selectGroup_fails_after_guard:
  "(\<exists>self block_number seed n.
      numberOfGroups self = Inr n \<and> 0 < n \<and>
      expireOldGroups self block_number = Inl IndexOutOfBounds \<and>
      selectGroup self block_number seed = Inl IndexOutOfBounds) \<and>
   (\<exists>self block_number seed n self'.
      numberOfGroups self = Inr n \<and> 0 < n \<and>
      expireOldGroups self block_number = Inr self' \<and> numberOfGroups self' = Inr 0 \<and>
      selectGroup self block_number seed = Inl DivisionByZero)"
proof (rule conjI)
  have "numberOfGroups one_group = Inr 1 \<and> (0 :: nat) < 1 \<and>
        expireOldGroups one_group 1101 = Inl IndexOutOfBounds \<and>
        selectGroup one_group 1101 0 = Inl IndexOutOfBounds"
    by (simp add: one_group_def registry_eval)
  then show "\<exists>self block_number seed n.
      numberOfGroups self = Inr n \<and> 0 < n \<and>
      expireOldGroups self block_number = Inl IndexOutOfBounds \<and>
      selectGroup self block_number seed = Inl IndexOutOfBounds"
    by blast
next
  have "numberOfGroups old_and_terminated = Inr 1 \<and> (0 :: nat) < 1 \<and>
        expireOldGroups old_and_terminated 1101 =
          Inr (old_and_terminated\<lparr>expiredGroupOffset := 1\<rparr>) \<and>
        numberOfGroups (old_and_terminated\<lparr>expiredGroupOffset := 1\<rparr>) = Inr 0 \<and>
        selectGroup old_and_terminated 1101 0 = Inl DivisionByZero"
    by (simp add: old_and_terminated_def registry_eval)
  then show "\<exists>self block_number seed n self'.
      numberOfGroups self = Inr n \<and> 0 < n \<and>
      expireOldGroups self block_number = Inr self' \<and> numberOfGroups self' = Inr 0 \<and>
      selectGroup self block_number seed = Inl DivisionByZero"
    by blast
qed

subsection \<open>Terminating a group twice\<close>

text \<open>
  C10: \<open>terminateGroup\<close> succeeds on every index inside the array, whatever the group's
  flag. Two calls for the same index append it twice to \<open>activeTerminatedGroups\<close>; the
  second call changes neither the groups nor the offset, yet \<open>numberOfGroups\<close> is one
  less than after the first call (or reverts where that count was zero). Two calls of
  \<open>reportRelayEntryTimeout\<close> with a positive group size leave exactly these registries.
\<close>

theorem terminateGroup_twice:
  assumes "groupIndex < length (groups self)"
  shows "\<exists>s1 s2. terminateGroup self groupIndex = Inr s1 \<and>
     terminateGroup s1 groupIndex = Inr s2 \<and>
     groups s2 = groups s1 \<and> expiredGroupOffset s2 = expiredGroupOffset s1 \<and>
     activeTerminatedGroups s2 = activeTerminatedGroups self @ [groupIndex, groupIndex] \<and>
     count_list (activeTerminatedGroups s2) groupIndex
       = count_list (activeTerminatedGroups self) groupIndex + 2 \<and>
     numberOfGroups s2 =
       (case numberOfGroups s1 of
          Inl e \<Rightarrow> Inl e
        | Inr n \<Rightarrow> if 0 < n then Inr (n - 1)
                   else Inl (Require ''SafeMath: subtraction overflow'')) \<and>
     (0 < groupSize \<longrightarrow>
        map_sum id fst (reportRelayEntryTimeout self sender groupIndex groupSize minimumStake)
          = Inr s1 \<and>
        map_sum id fst (reportRelayEntryTimeout s1 sender groupIndex groupSize minimumStake)
          = Inr s2)"
  using assms
  by (auto simp: terminateGroup_def numberOfGroups_def SafeMath_sub_def
        reportRelayEntryTimeout_def SafeMath_div_def getGroupMembers_def Let_def
        split: sum.splits)

text \<open>
  C10 on a registry of two active groups: after two timeout reports on group 1 the
  tracked list is \<open>[1, 1]\<close> and the count is 0, although group 0 is active.
\<close>

theorem terminateGroup_twice_witness:
  "1 < length (groups old_and_new) \<and> (0 :: nat) < 64 \<and>
   numberOfGroups old_and_new = Inr 2 \<and>
   terminateGroup old_and_new 1 = Inr old_and_terminated \<and>
   numberOfGroups old_and_terminated = Inr 1 \<and>
   terminateGroup old_and_terminated 1 = Inr terminated_twice \<and>
   groups terminated_twice = groups old_and_terminated \<and>
   activeTerminatedGroups terminated_twice = [1, 1] \<and>
   numberOfGroups terminated_twice = Inr 0 \<and>
   map_sum id fst (reportRelayEntryTimeout old_and_new 9 1 64 1000) = Inr old_and_terminated \<and>
   map_sum id fst (reportRelayEntryTimeout old_and_terminated 9 1 64 1000) = Inr terminated_twice"
proof -
  have h: "1 < length (groups old_and_new)"
    by (simp add: old_and_new_def sample_registry_def)
  have n0: "numberOfGroups old_and_new = Inr 2"
    by (simp add: old_and_new_def registry_eval)
  have e1: "terminateGroup old_and_new 1 = Inr old_and_terminated"
    by (simp add: old_and_new_def old_and_terminated_def sample_registry_def sample_group_def
          terminateGroup_def)
  have e2: "terminateGroup old_and_terminated 1 = Inr terminated_twice"
    by (simp add: terminated_twice_def old_and_terminated_def sample_registry_def
          sample_group_def terminateGroup_def)
  have n1: "numberOfGroups old_and_terminated = Inr 1"
    by (simp add: old_and_terminated_def registry_eval)
  have a0: "activeTerminatedGroups old_and_new = []"
    by (simp add: old_and_new_def sample_registry_def)
  from terminateGroup_twice [OF h, of 64 9 1000] e1 e2 n1 a0
  have "groups terminated_twice = groups old_and_terminated"
    "activeTerminatedGroups terminated_twice = [1, 1]"
    "numberOfGroups terminated_twice = Inr 0"
    "map_sum id fst (reportRelayEntryTimeout old_and_new 9 1 64 1000) = Inr old_and_terminated"
    "map_sum id fst (reportRelayEntryTimeout old_and_terminated 9 1 64 1000)
       = Inr terminated_twice"
    by simp_all
  then show ?thesis using h n0 e1 e2 n1 by simp
qed

subsection \<open>Withdrawing group rewards\<close>

lemma sumRewards_count:
  "sumRewards operator reward members acc = Inr rewards \<Longrightarrow>
     rewards = acc + count_list members operator * reward"
  by (induction members arbitrary: acc)
     (fastforce simp: SafeMath_add_def split: if_splits sum.splits)+

lemma sumRewards_within_range:
  "acc + count_list members operator * reward \<le> MAX_UINT256 \<Longrightarrow>
     sumRewards operator reward members acc = Inr (acc + count_list members operator * reward)"
  by (induction members arbitrary: acc) (auto simp: SafeMath_add_def)

text \<open>
  No call of the library takes a group out of the array, changes the key of a group or
  clears a withdrawal flag.
\<close>

lemma terminateGroup_keeps:
  "terminateGroup self i = Inr self' \<Longrightarrow>
     groupKeys self' = groupKeys self \<and> withdrawn self' = withdrawn self"
  by (auto simp: terminateGroup_def groupKeys_def map_update list_update_same_conv
        split: if_splits)

lemma expireOldGroups_keeps:
  "expireOldGroups self bn = Inr self' \<Longrightarrow>
     groupKeys self' = groupKeys self \<and> withdrawn self' = withdrawn self"
  by (drule expireOldGroups_result) (auto simp: groupKeys_def)

lemma selectGroup_keeps:
  "selectGroup self bn seed = Inr (self', i) \<Longrightarrow>
     groupKeys self' = groupKeys self \<and> withdrawn self' = withdrawn self"
  by (auto simp: selectGroup_def split: sum.splits if_splits dest: expireOldGroups_keeps)

lemma withdrawFromGroup_keeps:
  "withdrawFromGroup self bn operator i = Inr (self', r) \<Longrightarrow>
     groupKeys self' = groupKeys self \<and> (withdrawn self k a \<longrightarrow> withdrawn self' k a)"
  by (auto simp: withdrawFromGroup_def Let_def groupKeys_def split: sum.splits if_splits)

lemma exec_keeps:
  "prefix (groupKeys self) (groupKeys (exec v self c)) \<and>
   (withdrawn self k a \<longrightarrow> withdrawn (exec v self c) k a)"
proof (cases c)
  case (Pair bn cl)
  show ?thesis
  proof (cases cl)
    case (AddGroup pubKey)
    then show ?thesis using Pair by (simp add: addGroup_def groupKeys_def)
  next
    case (SetGroupMembers pubKey members misbehaved)
    then show ?thesis using Pair
      by (auto simp: commit_def setGroupMembers_def groupKeys_def split: sum.splits)
  next
    case (AddGroupMemberReward pubKey reward)
    then show ?thesis using Pair
      by (auto simp: commit_def addGroupMemberReward_def groupKeys_def split: sum.splits)
  next
    case (TerminateGroup i)
    then show ?thesis using Pair
      by (auto simp: commit_def split: sum.splits dest: terminateGroup_keeps)
  next
    case ExpireOldGroups
    then show ?thesis using Pair
      by (auto simp: commit_def split: sum.splits dest: expireOldGroups_keeps)
  next
    case (SelectGroup seed)
    then show ?thesis using Pair
      by (cases "selectGroup self bn seed") (auto simp: commit_def dest: selectGroup_keeps)
  next
    case (WithdrawFromGroup operator i)
    then show ?thesis using Pair withdrawFromGroup_keeps [of self bn operator i _ _ k a]
      by (cases "withdrawFromGroup self bn operator i") (auto simp: commit_def)
  next
    case (ReportUnauthorizedSigning sender i signedMsgSender stake)
    then show ?thesis using Pair
      by (cases "reportUnauthorizedSigning v self bn sender i signedMsgSender stake")
         (auto simp: commit_def reportUnauthorizedSigning_def Let_def
               split: sum.splits if_splits dest: terminateGroup_keeps)
  next
    case (ReportRelayEntryTimeout sender i groupSize stake)
    then show ?thesis using Pair
      by (cases "reportRelayEntryTimeout self sender i groupSize stake")
         (auto simp: commit_def reportRelayEntryTimeout_def Let_def
               split: sum.splits if_splits dest: terminateGroup_keeps)
  qed
qed

lemma run_keeps:
  "prefix (groupKeys self) (groupKeys (run v self calls)) \<and>
   (withdrawn self k a \<longrightarrow> withdrawn (run v self calls) k a)"
proof (induction calls arbitrary: self)
  case Nil
  show ?case by (simp add: run_def)
next
  case (Cons c calls)
  from exec_keeps [of self v c k a] Cons.IH [of "exec v self c"]
  show ?case unfolding run_def by (auto intro: prefix_order.trans)
qed

lemma prefix_nth:
  "prefix xs ys \<Longrightarrow> i < length xs \<Longrightarrow> i < length ys \<and> ys ! i = xs ! i"
  by (auto simp: prefix_def nth_append)

lemma withdrawFromGroup_when_withdrawn:
  "i < length (groups self) \<Longrightarrow> withdrawn self (groupPubKey (groups self ! i)) operator \<Longrightarrow>
     \<exists>e. withdrawFromGroup self bn operator i = Inl e"
  by (auto simp: withdrawFromGroup_def getGroupPublicKey_def Let_def split: sum.splits)

lemma withdrawFromGroup_outside:
  "\<not> i < length (groups self) \<Longrightarrow> withdrawFromGroup self bn operator i = Inl IndexOutOfBounds"
  by (auto simp: withdrawFromGroup_def isStaleGroup_def)

text \<open>
  C7: a call of \<open>withdrawFromGroup\<close> that succeeds finds the group below the expired-group
  offset and past its stale time, finds the operator not yet withdrawn from the group,
  and returns the group's accumulated reward once per occurrence of the operator in the
  member list; after it, whatever calls of the library follow, every further withdrawal
  for the same group index and operator fails. A call while the group has not passed its
  stale time fails with "Group must be expired and stale". A call on an expired, stale
  group by an operator that has not withdrawn succeeds, provided the sum fits a uint256.
\<close>

theorem withdrawFromGroup_once_when_stale:
  "(\<forall>self' rewards.
      withdrawFromGroup self block_number operator groupIndex = Inr (self', rewards) \<longrightarrow>
        groupIndex < expiredGroupOffset self \<and> groupIndex < length (groups self) \<and>
        (\<exists>staleTime. groupStaleTime self (groups self ! groupIndex) = Inr staleTime \<and>
                      staleTime < block_number) \<and>
        \<not> withdrawn self (groupPubKey (groups self ! groupIndex)) operator \<and>
        rewards = count_list (groupMembers self (groupPubKey (groups self ! groupIndex))) operator
                    * groupMemberRewards self (groupPubKey (groups self ! groupIndex)) \<and>
        (\<forall>calls later. \<exists>e.
            withdrawFromGroup (run verifyBytes self' calls) later operator groupIndex = Inl e)) \<and>
   (\<forall>staleTime.
      groupIndex < length (groups self) \<and>
      groupStaleTime self (groups self ! groupIndex) = Inr staleTime \<and>
      \<not> staleTime < block_number \<longrightarrow>
        withdrawFromGroup self block_number operator groupIndex =
          Inl (Require ''Group must be expired and stale'')) \<and>
   (groupIndex < length (groups self) \<and> groupIndex < expiredGroupOffset self \<and>
    (\<exists>staleTime. groupStaleTime self (groups self ! groupIndex) = Inr staleTime \<and>
                  staleTime < block_number) \<and>
    \<not> withdrawn self (groupPubKey (groups self ! groupIndex)) operator \<and>
    count_list (groupMembers self (groupPubKey (groups self ! groupIndex))) operator
       * groupMemberRewards self (groupPubKey (groups self ! groupIndex)) \<le> MAX_UINT256 \<longrightarrow>
      (\<exists>self'. withdrawFromGroup self block_number operator groupIndex =
         Inr (self',
              count_list (groupMembers self (groupPubKey (groups self ! groupIndex))) operator
                * groupMemberRewards self (groupPubKey (groups self ! groupIndex)))))"
proof (intro conjI allI impI)
  fix self' rewards
  assume w: "withdrawFromGroup self block_number operator groupIndex = Inr (self', rewards)"
  let ?k = "groupPubKey (groups self ! groupIndex)"
  have inside: "groupIndex < length (groups self)"
    using w withdrawFromGroup_outside [of groupIndex self block_number operator] by auto
  from w inside show "groupIndex < expiredGroupOffset self"
    by (auto simp: withdrawFromGroup_def Let_def split: sum.splits if_splits)
  from inside show "groupIndex < length (groups self)" .
  from w inside
  show "\<exists>staleTime. groupStaleTime self (groups self ! groupIndex) = Inr staleTime \<and>
                    staleTime < block_number"
    by (auto simp: withdrawFromGroup_def isStaleGroup_def Let_def split: sum.splits if_splits)
  from w inside show "\<not> withdrawn self ?k operator"
    by (auto simp: withdrawFromGroup_def getGroupPublicKey_def Let_def
          split: sum.splits if_splits)
  from w inside
  show "rewards = count_list (groupMembers self ?k) operator * groupMemberRewards self ?k"
    by (auto simp: withdrawFromGroup_def getGroupPublicKey_def Let_def
          split: sum.splits if_splits dest!: sumRewards_count)
  from w inside have same_keys: "groupKeys self' = groupKeys self"
    and flagged: "withdrawn self' ?k operator"
    by (auto simp: withdrawFromGroup_def getGroupPublicKey_def Let_def groupKeys_def
          split: sum.splits if_splits)
  fix calls later
  let ?s = "run verifyBytes self' calls"
  from run_keeps [of self' verifyBytes calls ?k operator] flagged
  have p: "prefix (groupKeys self') (groupKeys ?s)" and flagged': "withdrawn ?s ?k operator"
    by auto
  from inside have kl: "groupIndex < length (groupKeys self)"
    and kn: "groupKeys self ! groupIndex = ?k"
    by (simp_all add: groupKeys_def)
  from prefix_nth [OF p [unfolded same_keys] kl]
  have inside': "groupIndex < length (groups ?s)" and "groupKeys ?s ! groupIndex = ?k"
    using kn by (simp_all add: groupKeys_def)
  then have same: "groupPubKey (groups ?s ! groupIndex) = ?k"
    by (simp add: groupKeys_def)
  show "\<exists>e. withdrawFromGroup ?s later operator groupIndex = Inl e"
    by (rule withdrawFromGroup_when_withdrawn [OF inside']) (simp add: same flagged')
next
  fix staleTime
  assume "groupIndex < length (groups self) \<and>
      groupStaleTime self (groups self ! groupIndex) = Inr staleTime \<and>
      \<not> staleTime < block_number"
  then show "withdrawFromGroup self block_number operator groupIndex =
          Inl (Require ''Group must be expired and stale'')"
    by (simp add: withdrawFromGroup_def isStaleGroup_def)
next
  let ?k = "groupPubKey (groups self ! groupIndex)"
  assume "groupIndex < length (groups self) \<and> groupIndex < expiredGroupOffset self \<and>
    (\<exists>staleTime. groupStaleTime self (groups self ! groupIndex) = Inr staleTime \<and>
                  staleTime < block_number) \<and>
    \<not> withdrawn self ?k operator \<and>
    count_list (groupMembers self ?k) operator * groupMemberRewards self ?k \<le> MAX_UINT256"
  then show "\<exists>self'. withdrawFromGroup self block_number operator groupIndex =
         Inr (self', count_list (groupMembers self ?k) operator * groupMemberRewards self ?k)"
    using sumRewards_within_range [of 0 "groupMembers self ?k" operator
            "groupMemberRewards self ?k"]
    by (auto simp: withdrawFromGroup_def isStaleGroup_def getGroupPublicKey_def Let_def)
qed

text \<open>
  C7 on group 0 of a registry with offset 1, stale after height 1120, members
  \<open>[7, 8, 7]\<close> and an accumulated reward of 5: operator 7 withdraws 10 at height 1121,
  cannot withdraw at height 1120, and cannot withdraw again at height 1130, after more
  reward has been added to the group.
\<close>

theorem withdrawFromGroup_once_when_stale_witness:
  "0 < length (groups stale_group) \<and> 0 < expiredGroupOffset stale_group \<and>
   groupStaleTime stale_group (groups stale_group ! 0) = Inr 1120 \<and>
   \<not> withdrawn stale_group (groupPubKey (groups stale_group ! 0)) 7 \<and>
   map_sum id snd (withdrawFromGroup stale_group 1121 7 0) = Inr 10 \<and>
   withdrawFromGroup stale_group 1120 7 0 = Inl (Require ''Group must be expired and stale'') \<and>
   withdrawFromGroup
     (run (\<lambda>pubKey sender signedMsgSender. True)
        (commit stale_group (map_sum id fst (withdrawFromGroup stale_group 1121 7 0)))
        [(1125, AddGroupMemberReward ''a'' 3)])
     1130 7 0 = Inl (Require ''Rewards already withdrawn'')"
proof -
  have h: "0 < length (groups stale_group)" "0 < expiredGroupOffset stale_group"
    "groupStaleTime stale_group (groups stale_group ! 0) = Inr 1120"
    "\<not> withdrawn stale_group (groupPubKey (groups stale_group ! 0)) 7"
    by (simp_all add: stale_group_def registry_eval)
  have fits: "count_list (groupMembers stale_group (groupPubKey (groups stale_group ! 0))) 7
       * groupMemberRewards stale_group (groupPubKey (groups stale_group ! 0)) = 10"
    by (simp add: stale_group_def sample_registry_def sample_group_def)
  note claim = withdrawFromGroup_once_when_stale
        [where self = stale_group and operator = 7 and groupIndex = 0
           and verifyBytes = "\<lambda>pubKey sender signedMsgSender. True"]
  from claim [of 1121] h fits
  obtain self' where w: "withdrawFromGroup stale_group 1121 7 0 = Inr (self', 10)"
    by (auto simp: MAX_UINT256_def)
  from claim [of 1120] h
  have early: "withdrawFromGroup stale_group 1120 7 0
                 = Inl (Require ''Group must be expired and stale'')"
    by simp
  from claim [of 1121] w
  obtain e where again: "withdrawFromGroup
     (run (\<lambda>pubKey sender signedMsgSender. True) self' [(1125, AddGroupMemberReward ''a'' 3)])
     1130 7 0 = Inl e"
    by blast
  have "withdrawFromGroup
     (run (\<lambda>pubKey sender signedMsgSender. True)
        (commit stale_group (map_sum id fst (withdrawFromGroup stale_group 1121 7 0)))
        [(1125, AddGroupMemberReward ''a'' 3)])
     1130 7 0 = Inl (Require ''Rewards already withdrawn'')"
    by (simp add: stale_group_def registry_eval withdrawFromGroup_def getGroupPublicKey_def
          Let_def commit_def run_def addGroupMemberReward_def)
  then show ?thesis using h w early by simp
qed

end
